theory Spec2Isabelle
  imports Complex_Main
begin

section \<open>Exceptions\<close>

text \<open>
  The Python exceptions that the modelled code can raise. \<open>StageError\<close> stands for
  any exception raised by a caller-supplied callable (an augmentation stage, a transform, a
  file loader); its string is the exception's message.
\<close>

datatype exn =
    IndexError
  | ValueError
  | KeyError
  | TypeError
  | NotImplementedError
  | AssertionError string
  | StageError string

section \<open>Numpy arrays\<close>

text \<open>
  Numpy decides where and how the elements of an array lie in memory (its strides, whether
  it may be written) from how the array was made. \<open>memory\<close> records just that: the
  memory of an array that comes from outside, described by a value \<open>'m\<close>; memory newly
  allocated in C order for a shape (\<^verbatim>\<open>np.zeros\<close>, \<^verbatim>\<open>a.copy()\<close>); the view
  \<^verbatim>\<open>a[i]\<close> into the memory of \<open>a\<close>; the result of \<^verbatim>\<open>a[inds]\<close> for a number of
  indices; the result of \<^verbatim>\<open>np.concatenate\<close>; and a block of shared memory for a shape.
\<close>

datatype 'm memory =
    Given 'm
  | Allocated "nat list"
  | View "'m memory"
  | Indexed "'m memory" nat
  | Joined "'m memory" "'m memory"
  | Shared "nat list"

text \<open>
  An \<open>ndarray\<close> is its shape, its dtype, its memory and its elements in row-major order
  of its indices. The dtype is a tag \<open>'d\<close>; the elements are values \<open>'v\<close>, stored as
  they are (the numeric conversion numpy performs when it writes into an array of another
  dtype is not tracked).
\<close>

record ('d, 'm, 'v) ndarray =
  shape :: "nat list"
  dtype :: 'd
  memory :: "'m memory"
  items :: "'v list"

text \<open>\<^verbatim>\<open>a[i]\<close> for an integer \<open>i \<ge> 0\<close>: the \<open>i\<close>-th entry along the leading axis.\<close>

definition getitem :: "('d, 'm, 'v) ndarray \<Rightarrow> nat \<Rightarrow> exn + ('d, 'm, 'v) ndarray" where
  "getitem a i =
     (case shape a of
        [] \<Rightarrow> Inl IndexError
      | n # rs \<Rightarrow>
          if i < n
          then Inr \<lparr>shape = rs, dtype = dtype a, memory = View (memory a),
                    items = take (prod_list rs) (drop (i * prod_list rs) (items a))\<rparr>
          else Inl IndexError)"

text \<open>\<^verbatim>\<open>a[inds]\<close> for a list of indices: the selected entries, stacked along a new leading axis.\<close>

definition take_rows :: "('d, 'm, 'v) ndarray \<Rightarrow> nat list \<Rightarrow> exn + ('d, 'm, 'v) ndarray" where
  "take_rows a inds =
     (case shape a of
        [] \<Rightarrow> Inl IndexError
      | n # rs \<Rightarrow>
          if \<forall>i \<in> set inds. i < n
          then Inr \<lparr>shape = length inds # rs, dtype = dtype a,
                    memory = Indexed (memory a) (length inds),
                    items = concat (map (\<lambda>i. take (prod_list rs) (drop (i * prod_list rs) (items a))) inds)\<rparr>
          else Inl IndexError)"

text \<open>\<^verbatim>\<open>np.zeros(shape, dtype)\<close>.\<close>

definition zeros :: "nat list \<Rightarrow> 'd \<Rightarrow> ('d, 'm, 'v::zero) ndarray" where
  "zeros shp dt =
     \<lparr>shape = shp, dtype = dt, memory = Allocated shp, items = replicate (prod_list shp) 0\<rparr>"

text \<open>\<^verbatim>\<open>a.copy()\<close>: the same array in memory of its own.\<close>

definition copy :: "('d, 'm, 'v) ndarray \<Rightarrow> ('d, 'm, 'v) ndarray" where
  "copy a = a\<lparr>memory := Allocated (shape a)\<rparr>"

text \<open>
  Broadcasting of a value of shape \<open>ss\<close> to a target of shape \<open>ts\<close>, as numpy does it on
  assignment: surplus leading axes of length 1 are dropped from the value, missing leading
  axes are added with length 1, and then every axis of the value must have the target's
  length or length 1 (and is repeated in the latter case).
\<close>

fun strip_ones :: "nat \<Rightarrow> nat list \<Rightarrow> nat list" where
  "strip_ones k [] = []"
| "strip_ones k (s # ss) =
     (if k < length (s # ss) \<and> s = 1 then strip_ones k ss else s # ss)"

definition pad_ones :: "nat \<Rightarrow> nat list \<Rightarrow> nat list" where
  "pad_ones k ss = replicate (k - length ss) 1 @ ss"

fun bcast_ok :: "nat list \<Rightarrow> nat list \<Rightarrow> bool" where
  "bcast_ok [] [] = True"
| "bcast_ok (s # ss) (t # ts) = ((s = t \<or> s = 1) \<and> bcast_ok ss ts)"
| "bcast_ok _ _ = False"

fun bcast_items :: "nat list \<Rightarrow> nat list \<Rightarrow> 'v list \<Rightarrow> 'v list" where
  "bcast_items (s # ss) (t # ts) xs =
     (if s = t
      then concat (map (\<lambda>k. bcast_items ss ts (take (prod_list ss) (drop (k * prod_list ss) xs))) [0..<s])
      else concat (replicate t (bcast_items ss ts xs)))"
| "bcast_items _ _ xs = xs"

definition broadcast_to :: "('d, 'm, 'v) ndarray \<Rightarrow> nat list \<Rightarrow> exn + 'v list" where
  "broadcast_to v ts =
     (let ss = pad_ones (length ts) (strip_ones (length ts) (shape v))
      in if bcast_ok ss ts then Inr (bcast_items ss ts (items v)) else Inl ValueError)"

text \<open>\<^verbatim>\<open>aug[i] = out\<close>: row \<open>i\<close> of \<open>aug\<close> is overwritten with \<open>out\<close>, broadcast to the row's shape.\<close>

definition setitem :: "('d, 'm, 'v) ndarray \<Rightarrow> nat \<Rightarrow> ('d, 'm, 'v) ndarray \<Rightarrow> exn + ('d, 'm, 'v) ndarray" where
  "setitem aug i out =
     (case shape aug of
        [] \<Rightarrow> Inl IndexError
      | n # rs \<Rightarrow>
          if i < n
          then (case broadcast_to out rs of
                  Inl e \<Rightarrow> Inl e
                | Inr row \<Rightarrow>
                    Inr (aug\<lparr>items := take (i * prod_list rs) (items aug) @ row
                                    @ drop (Suc i * prod_list rs) (items aug)\<rparr>))
          else Inl IndexError)"

text \<open>\<^verbatim>\<open>a[...] = b\<close>: the whole of \<open>a\<close> is overwritten in place with \<open>b\<close>.\<close>

definition assign_all :: "('d, 'm, 'v) ndarray \<Rightarrow> ('d, 'm, 'v) ndarray \<Rightarrow> exn + ('d, 'm, 'v) ndarray" where
  "assign_all a b =
     (case broadcast_to b (shape a) of
        Inl e \<Rightarrow> Inl e
      | Inr xs \<Rightarrow> Inr (a\<lparr>items := xs\<rparr>))"

text \<open>
  \<^verbatim>\<open>np.concatenate([a, b])\<close> along the leading axis. The dtype of the result is numpy's
  promotion of the two dtypes, the parameter \<open>promote\<close>.
\<close>

definition concatenate ::
  "('d \<Rightarrow> 'd \<Rightarrow> 'd) \<Rightarrow> ('d, 'm, 'v) ndarray \<Rightarrow> ('d, 'm, 'v) ndarray \<Rightarrow> exn + ('d, 'm, 'v) ndarray" where
  "concatenate promote a b =
     (case (shape a, shape b) of
        (n # rs, m # rs') \<Rightarrow>
          if rs = rs'
          then Inr \<lparr>shape = (n + m) # rs, dtype = promote (dtype a) (dtype b),
                    memory = Joined (memory a) (memory b), items = items a @ items b\<rparr>
          else Inl ValueError
      | _ \<Rightarrow> Inl ValueError)"

text \<open>\<^verbatim>\<open>a.nbytes\<close>: the number of elements times the item size of the dtype.\<close>

definition nbytes :: "('d \<Rightarrow> nat) \<Rightarrow> ('d, 'm, 'v) ndarray \<Rightarrow> int" where
  "nbytes itemsize a = int (prod_list (shape a) * itemsize (dtype a))"

text \<open>
  The weights that \<^verbatim>\<open>np.random.choice\<close> accepts for \<open>n\<close> indices: one weight for
  each index, none negative, and their sum within numpy's tolerance of 1 (the square root
  of the machine epsilon of float64, numpy's default type for weights).
\<close>

definition valid_weights :: "nat \<Rightarrow> real list \<Rightarrow> bool" where
  "valid_weights n ws \<longleftrightarrow>
     length ws = n \<and> list_all (\<lambda>w. 0 \<le> w) ws \<and> \<bar>sum_list ws - 1\<bar> \<le> 1 / 2 ^ 26"

text \<open>
  \<^verbatim>\<open>np.random.choice(n, count, p=p)\<close>. The indices drawn are the parameter \<open>draw\<close>,
  the outcome of the random generator: a list of \<open>count\<close> indices below \<open>n\<close>
  (\<open>valid_draw\<close>). Drawing from an empty range raises, and so do weights \<open>p\<close> that
  numpy does not accept; otherwise the weights only shape the distribution of the draw.
\<close>

definition random_choice :: "nat \<Rightarrow> nat \<Rightarrow> real list option \<Rightarrow> nat list \<Rightarrow> exn + nat list" where
  "random_choice n count p draw =
     (if n = 0 \<and> 0 < count then Inl ValueError
      else (case p of
              None \<Rightarrow> Inr draw
            | Some ws \<Rightarrow> if valid_weights n ws then Inr draw else Inl ValueError))"


text \<open>Evaluation of a list of fallible computations in order, stopping at the first exception.\<close>

fun sequence :: "('e + 'a) list \<Rightarrow> 'e + 'a list" where
  "sequence [] = Inr []"
| "sequence (x # xs) =
     (case x of
        Inl e \<Rightarrow> Inl e
      | Inr v \<Rightarrow> (case sequence xs of Inl e \<Rightarrow> Inl e | Inr vs \<Rightarrow> Inr (v # vs)))"

section \<open>The augment decorator\<close>

text \<open>
  The keyword arguments of a call of a decorated function: \<open>kw_prob\<close> and
  \<open>kw_applyIndices\<close> are the entries \<^verbatim>\<open>prob\<close> and \<^verbatim>\<open>applyIndices\<close> when the call
  gives them (\<^verbatim>\<open>applyIndices\<close> may be given as \<^verbatim>\<open>None\<close>), \<open>kw_rest\<close> is everything
  else, which is handed on to the decorated function.
\<close>

record 'k kwargs =
  kw_prob :: "real option"
  kw_applyIndices :: "int list option option"
  kw_rest :: 'k

text \<open>\<^verbatim>\<open>_prob=kwargs.pop('prob',prob)\<close> and \<^verbatim>\<open>_applyIndices=kwargs.pop('applyIndices',applyIndices)\<close>.\<close>

definition resolved_prob :: "real \<Rightarrow> 'k kwargs \<Rightarrow> real" where
  "resolved_prob prob kwargs = (case kw_prob kwargs of Some q \<Rightarrow> q | None \<Rightarrow> prob)"

definition resolved_applyIndices :: "int list option \<Rightarrow> 'k kwargs \<Rightarrow> int list option" where
  "resolved_applyIndices applyIndices kwargs =
     (case kw_applyIndices kwargs of Some v \<Rightarrow> v | None \<Rightarrow> applyIndices)"

text \<open>\<^verbatim>\<open>indices=list(_applyIndices or range(len(args)))\<close>: \<^verbatim>\<open>None\<close> and the empty list are both false.\<close>

definition target_indices :: "int list option \<Rightarrow> nat \<Rightarrow> int list" where
  "target_indices ai n =
     (case ai of
        None \<Rightarrow> map int [0..<n]
      | Some xs \<Rightarrow> if xs = [] then map int [0..<n] else xs)"

text \<open>
  The random source of an invocation is a state \<open>'s\<close>: \<open>randChoice\<close> is
  \<^verbatim>\<open>trainutils.randChoice\<close>, one coin flip that succeeds with the given probability.
  \<open>skips\<close> is the guard \<^verbatim>\<open>_prob<1.0 and not trainutils.randChoice(_prob)\<close>: its
  value and the state it leaves (\<^verbatim>\<open>and\<close> does not evaluate its second operand when
  the first is false).
\<close>

definition skips :: "real \<Rightarrow> 'k kwargs \<Rightarrow> (real \<Rightarrow> 's \<Rightarrow> bool \<times> 's) \<Rightarrow> 's \<Rightarrow> bool \<times> 's" where
  "skips prob kwargs randChoice s =
     (let p = resolved_prob prob kwargs
      in if p < 1 then (case randChoice p s of (c, t) \<Rightarrow> (\<not> c, t)) else (False, s))"

text \<open>
  \<^verbatim>\<open>_func\<close>, the function that \<^verbatim>\<open>augment(prob, applyIndices)\<close> makes of \<open>func\<close>.
  \<open>func\<close>, which may draw its own random numbers, returns the transform (or raises) and
  the state it leaves. A transform is a function on one array that may raise.
\<close>

definition augment ::
  "real \<Rightarrow> int list option \<Rightarrow> (real \<Rightarrow> 's \<Rightarrow> bool \<times> 's)
     \<Rightarrow> ('a list \<Rightarrow> 'k \<Rightarrow> 's \<Rightarrow> (exn + ('a \<Rightarrow> exn + 'a)) \<times> 's)
     \<Rightarrow> 'a list \<Rightarrow> 'k kwargs \<Rightarrow> 's \<Rightarrow> (exn + 'a list) \<times> 's" where
  "augment prob applyIndices randChoice func args kwargs s =
     (case skips prob kwargs randChoice s of
        (skip, s1) \<Rightarrow>
          if skip then (Inr args, s1)
          else
            (let ai = resolved_applyIndices applyIndices kwargs
             in case func args (kw_rest kwargs) s1 of
                  (Inl e, s2) \<Rightarrow> (Inl e, s2)
                | (Inr op, s2) \<Rightarrow>
                    (let indices = target_indices ai (length args)
                     in (sequence (map (\<lambda>(i, im). if int i \<in> set indices then op im else Inr im)
                                       (enumerate 0 args)), s2))))"

section \<open>The data source\<close>

text \<open>
  A stage of the augmentation pipeline maps a record tuple to a record tuple, or raises. A
  \<^verbatim>\<open>DataSource\<close> holds its backing arrays, the selection weights and the pipeline; the
  record generator is the default one, \<^verbatim>\<open>defaultDataGen\<close>.
\<close>

type_synonym ('d, 'm, 'v) stage = "('d, 'm, 'v) ndarray list \<Rightarrow> exn + ('d, 'm, 'v) ndarray list"

record ('d, 'm, 'v) data_source =
  arrays :: "('d, 'm, 'v) ndarray list"
  selectProbs :: "real list option"
  augments :: "('d, 'm, 'v) stage list"

text \<open>
  \<^verbatim>\<open>defaultDataGen\<close>; \<open>draw\<close> is the outcome of the random choice made when no indices
  are supplied. (\<^verbatim>\<open>getIndexBatch\<close> leaves \<^verbatim>\<open>batchSize\<close> at its default, which the branch
  it takes does not read.)
\<close>

definition defaultDataGen ::
  "('d, 'm, 'v) data_source \<Rightarrow> nat \<Rightarrow> real list option \<Rightarrow> nat list option \<Rightarrow> nat list
     \<Rightarrow> exn + ('d, 'm, 'v) ndarray list" where
  "defaultDataGen src batchSize probs chosenInds draw =
     (case (case chosenInds of
              Some inds \<Rightarrow> Inr inds
            | None \<Rightarrow>
                (case arrays src of
                   [] \<Rightarrow> Inl IndexError
                 | a # _ \<Rightarrow>
                     (case shape a of
                        [] \<Rightarrow> Inl IndexError
                      | n # _ \<Rightarrow> random_choice n batchSize probs draw))) of
        Inl e \<Rightarrow> Inl e
      | Inr inds \<Rightarrow> sequence (map (\<lambda>a. take_rows a inds) (arrays src)))"

definition getRandomBatch ::
  "('d, 'm, 'v) data_source \<Rightarrow> nat \<Rightarrow> nat list \<Rightarrow> exn + ('d, 'm, 'v) ndarray list" where
  "getRandomBatch src batchSize draw = defaultDataGen src batchSize (selectProbs src) None draw"

definition getIndexBatch ::
  "('d, 'm, 'v) data_source \<Rightarrow> nat list \<Rightarrow> exn + ('d, 'm, 'v) ndarray list" where
  "getIndexBatch src chosenInds = defaultDataGen src 0 None (Some chosenInds) []"

text \<open>The loop \<^verbatim>\<open>for aug in augments: arrays=aug(*arrays)\<close>.\<close>

fun run_stages :: "('d, 'm, 'v) stage list \<Rightarrow> ('d, 'm, 'v) ndarray list \<Rightarrow> exn + ('d, 'm, 'v) ndarray list" where
  "run_stages [] arrs = Inr arrs"
| "run_stages (aug # augs) arrs =
     (case aug arrs of Inl e \<Rightarrow> Inl e | Inr arrs' \<Rightarrow> run_stages augs arrs')"

definition getAugmentedArrays ::
  "('d, 'm, 'v) data_source \<Rightarrow> ('d, 'm, 'v) ndarray list \<Rightarrow> exn + ('d, 'm, 'v) ndarray list" where
  "getAugmentedArrays src arrs = run_stages (augments src) arrs"

text \<open>
  The loop \<^verbatim>\<open>for out,aug in zip(outarrs,augArrays): aug[i]=out\<close>. The buffers are
  written in place, so the result is the buffers as the loop leaves them and the exception
  when an assignment raises.
\<close>

fun write_row ::
  "nat \<Rightarrow> ('d, 'm, 'v) ndarray list \<Rightarrow> ('d, 'm, 'v) ndarray list \<Rightarrow> ('d, 'm, 'v) ndarray list \<times> exn option" where
  "write_row i (out # outs) (aug # augs) =
     (case setitem aug i out of
        Inl e \<Rightarrow> (aug # augs, Some e)
      | Inr aug' \<Rightarrow> (case write_row i outs augs of (augs', r) \<Rightarrow> (aug' # augs', r)))"
| "write_row i outs augs = (augs, None)"

text \<open>The loop \<^verbatim>\<open>for i in indices\<close> of \<^verbatim>\<open>applyAugments\<close>.\<close>

fun augment_rows ::
  "('d, 'm, 'v) data_source \<Rightarrow> ('d, 'm, 'v) ndarray list \<Rightarrow> ('d, 'm, 'v) ndarray list \<Rightarrow> nat list
     \<Rightarrow> ('d, 'm, 'v) ndarray list \<times> exn option" where
  "augment_rows src arrs augArrays [] = (augArrays, None)"
| "augment_rows src arrs augArrays (i # indices) =
     (case sequence (map (\<lambda>a. getitem a i) arrs) of
        Inl e \<Rightarrow> (augArrays, Some e)
      | Inr inarrs \<Rightarrow>
          (case getAugmentedArrays src inarrs of
             Inl e \<Rightarrow> (augArrays, Some e)
           | Inr outarrs \<Rightarrow>
               (case write_row i outarrs augArrays of
                  (augArrays', Some e) \<Rightarrow> (augArrays', Some e)
                | (augArrays', None) \<Rightarrow> augment_rows src arrs augArrays' indices)))"

definition applyAugments ::
  "('d, 'm, 'v) data_source \<Rightarrow> ('d, 'm, 'v) ndarray list \<Rightarrow> ('d, 'm, 'v) ndarray list \<Rightarrow> nat list option
     \<Rightarrow> ('d, 'm, 'v) ndarray list \<times> exn option" where
  "applyAugments src arrs augArrays indices =
     (case indices of
        Some inds \<Rightarrow> augment_rows src arrs augArrays inds
      | None \<Rightarrow>
          (case arrs of
             [] \<Rightarrow> (augArrays, Some IndexError)
           | a # _ \<Rightarrow>
               (case shape a of
                  [] \<Rightarrow> (augArrays, Some IndexError)
                | n # _ \<Rightarrow> augment_rows src arrs augArrays [0..<n])))"

text \<open>
  \<^verbatim>\<open>applyAugmentsProc\<close>, the task of a worker process, on the worker's globals
  \<^verbatim>\<open>inArrays\<close>, \<^verbatim>\<open>augs\<close> and \<^verbatim>\<open>augments\<close>.
\<close>

fun applyAugmentsProc ::
  "('d, 'm, 'v) stage list \<Rightarrow> ('d, 'm, 'v) ndarray list \<Rightarrow> ('d, 'm, 'v) ndarray list \<Rightarrow> nat list
     \<Rightarrow> ('d, 'm, 'v) ndarray list \<times> exn option" where
  "applyAugmentsProc augments_g inArrays_g augs_g [] = (augs_g, None)"
| "applyAugmentsProc augments_g inArrays_g augs_g (i # indices) =
     (case sequence (map (\<lambda>a. getitem a i) inArrays_g) of
        Inl e \<Rightarrow> (augs_g, Some e)
      | Inr inarrs \<Rightarrow>
          (case run_stages augments_g inarrs of
             Inl e \<Rightarrow> (augs_g, Some e)
           | Inr inarrs' \<Rightarrow>
               (case write_row i inarrs' augs_g of
                  (augs', Some e) \<Rightarrow> (augs', Some e)
                | (augs', None) \<Rightarrow> applyAugmentsProc augments_g inArrays_g augs' indices)))"

text \<open>
  \<^verbatim>\<open>np.array_split(np.arange(n), k)\<close>: \<open>k\<close> consecutive chunks of \<open>[0..<n]\<close>, the first
  \<open>n mod k\<close> of them one longer than the others; \<open>k\<close> must be positive.
\<close>

fun split_sizes :: "'a list \<Rightarrow> nat list \<Rightarrow> 'a list list" where
  "split_sizes xs [] = []"
| "split_sizes xs (m # ms) = take m xs # split_sizes (drop m xs) ms"

definition array_split :: "nat \<Rightarrow> int \<Rightarrow> exn + nat list list" where
  "array_split n k =
     (if k \<le> 0 then Inl ValueError
      else Inr (split_sizes [0..<n]
                  (replicate (n mod nat k) (n div nat k + 1) @ replicate (nat k - n mod nat k) (n div nat k))))"

text \<open>
  \<^verbatim>\<open>min(batchSize, numThreads or mp.cpu_count())\<close>: the requested count when it is given
  and not zero, else the number \<open>cpu_count\<close> of processors, and at most the batch size.
\<close>

definition worker_count :: "nat \<Rightarrow> int option \<Rightarrow> nat \<Rightarrow> int" where
  "worker_count batchSize requested cpu_count =
     min (int batchSize)
         (case requested of
            None \<Rightarrow> int cpu_count
          | Some k \<Rightarrow> if k = 0 then int cpu_count else k)"

subsection \<open>The inline strategy\<close>

text \<open>
  \<^verbatim>\<open>localBatchGen\<close> up to its \<^verbatim>\<open>yield\<close>: the warm-up on index 0 and the allocation of
  the output buffers \<^verbatim>\<open>augs\<close>.
\<close>

definition localBatchGen ::
  "('d, 'm, 'v::zero) data_source \<Rightarrow> nat \<Rightarrow> exn + ('d, 'm, 'v) ndarray list" where
  "localBatchGen src batchSize =
     (case getIndexBatch src [0] of
        Inl e \<Rightarrow> Inl e
      | Inr inArrays \<Rightarrow>
          (case sequence (map (\<lambda>a. getitem a 0) inArrays) of
             Inl e \<Rightarrow> Inl e
           | Inr firsts \<Rightarrow>
               (case getAugmentedArrays src firsts of
                  Inl e \<Rightarrow> Inl e
                | Inr augTest \<Rightarrow> Inr (map (\<lambda>a. zeros (batchSize # shape a) (dtype a)) augTest))))"

text \<open>
  \<^verbatim>\<open>_getBatch\<close>, the pull of the inline strategy, on the buffers \<open>augs\<close>: the buffers
  after the call, and the returned batch (the buffers themselves) or the exception.
\<close>

definition getBatch ::
  "('d, 'm, 'v) data_source \<Rightarrow> nat \<Rightarrow> ('d, 'm, 'v) ndarray list \<Rightarrow> nat list
     \<Rightarrow> ('d, 'm, 'v) ndarray list \<times> (exn + ('d, 'm, 'v) ndarray list)" where
  "getBatch src batchSize augs draw =
     (case getRandomBatch src batchSize draw of
        Inl e \<Rightarrow> (augs, Inl e)
      | Inr batch \<Rightarrow>
          (case applyAugments src batch augs (Some [0..<batchSize]) of
             (augs', Some e) \<Rightarrow> (augs', Inl e)
           | (augs', None) \<Rightarrow> (augs', Inr augs')))"

subsection \<open>The handoff queue and the generator with a producer thread\<close>

text \<open>
  What the producer puts on the queue: a batch (a tuple of arrays) or an exception.
\<close>

datatype ('d, 'm, 'v) payload = Batch "('d, 'm, 'v) ndarray list" | Failure exn

text \<open>
  The producer thread \<^verbatim>\<open>batchThread\<close> is at the head of its loop (\<open>Running\<close>), blocked
  in \<^verbatim>\<open>batchQueue.put\<close> with the value it is putting (\<open>Putting\<close>; the flag tells
  whether its loop goes on after the put), has returned (\<open>Finished\<close>), or has been ended
  by an exception that nothing caught (\<open>Died\<close>).
\<close>

datatype ('d, 'm, 'v) producer =
    Running
  | Putting "('d, 'm, 'v) payload" bool
  | Finished
  | Died exn

text \<open>
  The variables that the producer thread and the context manager share: the index chunks
  (\<^verbatim>\<open>threadIndices\<close> or \<^verbatim>\<open>procIndices\<close>), the output buffers \<^verbatim>\<open>augs\<close>, the shared
  input buffers \<^verbatim>\<open>inArrays\<close> (process pool only), the queue of capacity one, the running
  flag and the producer thread.
\<close>

record ('d, 'm, 'v) generator =
  workerIndices :: "nat list list"
  augs :: "('d, 'm, 'v) ndarray list"
  inArrays :: "('d, 'm, 'v) ndarray list"
  batchQueue :: "('d, 'm, 'v) payload option"
  isRunning :: bool
  batchThread :: "('d, 'm, 'v) producer"

text \<open>
  \<^verbatim>\<open>Queue.get(block)\<close> without a timeout, on a queue of capacity one: an item when there
  is one; on an empty queue the exception \<^verbatim>\<open>queue.Empty\<close> when \<open>block\<close> is false,
  and otherwise the caller waits until an item is put (\<open>Blocked\<close>).
\<close>

datatype 'a got = Item 'a | Empty | Blocked

definition queue_get :: "bool \<Rightarrow> 'a option \<Rightarrow> 'a got \<times> 'a option" where
  "queue_get block q =
     (case q of
        Some v \<Rightarrow> (Item v, None)
      | None \<Rightarrow> (if block then Blocked else Empty, None))"

text \<open>
  The producer's \<^verbatim>\<open>batchQueue.put\<close>: it completes when the queue is empty, and the
  producer stays blocked in it while the queue is full.
\<close>

definition producer_put :: "('d, 'm, 'v) generator \<Rightarrow> ('d, 'm, 'v) generator" where
  "producer_put g =
     (case batchThread g of
        Putting v continue \<Rightarrow>
          (case batchQueue g of
             None \<Rightarrow> g\<lparr>batchQueue := Some v, batchThread := (if continue then Running else Finished)\<rparr>
           | Some w \<Rightarrow> g)
      | _ \<Rightarrow> g)"

text \<open>
  The \<^verbatim>\<open>finally\<close> block of \<^verbatim>\<open>threadBatchGen\<close> and \<^verbatim>\<open>processBatchGen\<close>: the flag
  is cleared and \<^verbatim>\<open>batchQueue.get(True)\<close> is called, \<^verbatim>\<open>queue.Empty\<close> being ignored.
  The release has \<open>Returned\<close>, or is \<open>Waiting\<close> in the \<^verbatim>\<open>get\<close>.
\<close>

datatype release_outcome = Returned | Waiting

definition release :: "('d, 'm, 'v) generator \<Rightarrow> release_outcome \<times> ('d, 'm, 'v) generator" where
  "release g =
     (let g1 = g\<lparr>isRunning := False\<rparr>
      in case queue_get True (batchQueue g1) of
           (Item v, q) \<Rightarrow> (Returned, g1\<lparr>batchQueue := q\<rparr>)
         | (Empty, q) \<Rightarrow> (Returned, g1)
         | (Blocked, q) \<Rightarrow> (Waiting, g1))"

text \<open>
  Whether a caller waiting in \<^verbatim>\<open>get\<close> obtains an item while the producer takes the
  steps \<open>step\<close>, one for each of the given draws.
\<close>

fun await_item ::
  "(('d, 'm, 'v) generator \<Rightarrow> nat list \<Rightarrow> ('d, 'm, 'v) generator) \<Rightarrow> ('d, 'm, 'v) generator \<Rightarrow> nat list list \<Rightarrow> bool" where
  "await_item step g [] = (batchQueue g \<noteq> None)"
| "await_item step g (d # ds) = (batchQueue g \<noteq> None \<or> await_item step (step g d) ds)"

subsection \<open>The thread-pool strategy\<close>

text \<open>
  The worker threads of one iteration: one call of \<^verbatim>\<open>applyAugments\<close> for each chunk.
  The chunks are disjoint and the stages are functions of their arguments, so the buffers
  after the join are those of running the chunks one after the other. An exception in a
  worker ends that worker only: nothing in the producer sees it.
\<close>

definition run_threads ::
  "('d, 'm, 'v) data_source \<Rightarrow> ('d, 'm, 'v) ndarray list \<Rightarrow> ('d, 'm, 'v) ndarray list \<Rightarrow> nat list list
     \<Rightarrow> ('d, 'm, 'v) ndarray list" where
  "run_threads src batch bufs chunks =
     foldl (\<lambda>b chunk. fst (applyAugments src batch b (Some chunk))) bufs chunks"

text \<open>
  \<^verbatim>\<open>threadBatchGen\<close> up to its \<^verbatim>\<open>yield\<close>; \<open>draw0\<close> is the draw of the one batch that
  is generated inline to obtain the buffers.
\<close>

definition threadBatchGen ::
  "('d, 'm, 'v::zero) data_source \<Rightarrow> nat \<Rightarrow> int option \<Rightarrow> nat \<Rightarrow> nat list \<Rightarrow> exn + ('d, 'm, 'v) generator" where
  "threadBatchGen src batchSize numThreads cpu_count draw0 =
     (case array_split batchSize (worker_count batchSize numThreads cpu_count) of
        Inl e \<Rightarrow> Inl e
      | Inr threadIndices \<Rightarrow>
          (case localBatchGen src batchSize of
             Inl e \<Rightarrow> Inl e
           | Inr bufs \<Rightarrow>
               (case getBatch src batchSize bufs draw0 of
                  (bufs', Inl e) \<Rightarrow> Inl e
                | (bufs', Inr out) \<Rightarrow>
                    Inr \<lparr>workerIndices = threadIndices, augs = out, inArrays = [],
                         batchQueue = None, isRunning = True, batchThread = Running\<rparr>)))"

text \<open>One pass of the loop of \<^verbatim>\<open>_batchThread\<close>, up to the \<^verbatim>\<open>put\<close>.\<close>

definition thread_iteration ::
  "('d, 'm, 'v) data_source \<Rightarrow> nat \<Rightarrow> ('d, 'm, 'v) generator \<Rightarrow> nat list \<Rightarrow> ('d, 'm, 'v) generator" where
  "thread_iteration src batchSize g draw =
     (if \<not> isRunning g then g\<lparr>batchThread := Finished\<rparr>
      else (case getRandomBatch src batchSize draw of
              Inl e \<Rightarrow> g\<lparr>batchThread := Died e\<rparr>
            | Inr batch \<Rightarrow>
                (let out = run_threads src batch (augs g) (workerIndices g)
                 in g\<lparr>augs := out, batchThread := Putting (Batch (map copy out)) True\<rparr>)))"

definition thread_step ::
  "('d, 'm, 'v) data_source \<Rightarrow> nat \<Rightarrow> ('d, 'm, 'v) generator \<Rightarrow> nat list \<Rightarrow> ('d, 'm, 'v) generator" where
  "thread_step src batchSize g draw =
     (case batchThread g of
        Running \<Rightarrow> thread_iteration src batchSize g draw
      | _ \<Rightarrow> producer_put g)"

text \<open>
  The pull of the thread-pool strategy is \<^verbatim>\<open>batchQueue.get\<close> itself: the caller
  receives whatever is on the queue, or waits (\<open>None\<close>).
\<close>

definition thread_pull ::
  "('d, 'm, 'v) generator \<Rightarrow> (('d, 'm, 'v) payload \<times> ('d, 'm, 'v) generator) option" where
  "thread_pull g =
     (case queue_get True (batchQueue g) of
        (Item v, q) \<Rightarrow> Some (v, g\<lparr>batchQueue := q\<rparr>)
      | _ \<Rightarrow> None)"

subsection \<open>The process-pool strategy\<close>

text \<open>\<^verbatim>\<open>str.lower\<close> on ASCII text.\<close>

definition lower_char :: "char \<Rightarrow> char" where
  "lower_char c =
     (let n = (of_char c :: nat) in if 65 \<le> n \<and> n \<le> 90 then char_of (n + 32) else c)"

definition lower :: "string \<Rightarrow> string" where
  "lower s = map lower_char s"

text \<open>
  \<^verbatim>\<open>toShared\<close>: a copy of the array in a block of shared memory.
  \<^verbatim>\<open>np.ctypeslib.as_ctypes\<close> raises \<^verbatim>\<open>TypeError\<close> for an array whose memory is
  strided (not C-contiguous) or read-only, and then \<^verbatim>\<open>NotImplementedError\<close> for a dtype
  that has no ctypes counterpart: \<open>refused\<close> tells which memories numpy makes strided or
  read-only, \<open>has_ctype\<close> which dtypes have a counterpart. \<^verbatim>\<open>fromShared\<close> is a view
  of the shared memory: the same array.
\<close>

definition toShared ::
  "('m memory \<Rightarrow> bool) \<Rightarrow> ('d \<Rightarrow> bool) \<Rightarrow> ('d, 'm, 'v) ndarray \<Rightarrow> exn + ('d, 'm, 'v) ndarray" where
  "toShared refused has_ctype a =
     (if refused (memory a) then Inl TypeError
      else if has_ctype (dtype a) then Inr (a\<lparr>memory := Shared (shape a)\<rparr>)
      else Inl NotImplementedError)"

definition fromShared :: "('d, 'm, 'v) ndarray \<Rightarrow> ('d, 'm, 'v) ndarray" where
  "fromShared a = a"

text \<open>The loop \<^verbatim>\<open>for a,b in zip(inArrays,batch): a[...]=b\<close>.\<close>

fun assign_zip ::
  "('d, 'm, 'v) ndarray list \<Rightarrow> ('d, 'm, 'v) ndarray list \<Rightarrow> ('d, 'm, 'v) ndarray list \<times> exn option" where
  "assign_zip (a # as) (b # bs) =
     (case assign_all a b of
        Inl e \<Rightarrow> (a # as, Some e)
      | Inr a' \<Rightarrow> (case assign_zip as bs of (as', r) \<Rightarrow> (a' # as', r)))"
| "assign_zip as bs = (as, None)"

text \<open>
  \<^verbatim>\<open>p.map(applyAugmentsProc,procIndices)\<close>: one task for each chunk, on the shared
  buffers. Every task runs; when tasks raise, \<^verbatim>\<open>map\<close> raises one of their exceptions
  once all tasks are done (here the one of the first such chunk).
\<close>

fun pool_map ::
  "('d, 'm, 'v) stage list \<Rightarrow> ('d, 'm, 'v) ndarray list \<Rightarrow> ('d, 'm, 'v) ndarray list \<Rightarrow> nat list list
     \<Rightarrow> ('d, 'm, 'v) ndarray list \<times> exn option" where
  "pool_map maugs ins bufs [] = (bufs, None)"
| "pool_map maugs ins bufs (chunk # chunks) =
     (case applyAugmentsProc maugs ins bufs chunk of
        (bufs', r) \<Rightarrow>
          (case pool_map maugs ins bufs' chunks of
             (bufs'', r') \<Rightarrow> (bufs'', (case r of Some e \<Rightarrow> Some e | None \<Rightarrow> r'))))"

text \<open>
  \<^verbatim>\<open>processBatchGen\<close> up to its \<^verbatim>\<open>yield\<close>; \<open>platform\<close> is the value of
  \<^verbatim>\<open>platform.system()\<close>, and \<open>draw0\<close> is the draw of the one batch that is generated
  inline to obtain the output buffers.
\<close>

definition processBatchGen ::
  "string \<Rightarrow> ('m memory \<Rightarrow> bool) \<Rightarrow> ('d \<Rightarrow> bool) \<Rightarrow> ('d, 'm, 'v::zero) data_source \<Rightarrow> nat
     \<Rightarrow> int option \<Rightarrow> nat \<Rightarrow> nat list \<Rightarrow> exn + ('d, 'm, 'v) generator" where
  "processBatchGen platform refused has_ctype src batchSize numProcs cpu_count draw0 =
     (if lower platform = ''windows''
      then Inl (AssertionError
                  ''Generating batches with processes requires fork() semantics not present in Windows.'')
      else
        (case array_split batchSize (worker_count batchSize numProcs cpu_count) of
           Inl e \<Rightarrow> Inl e
         | Inr procIndices \<Rightarrow>
             (case localBatchGen src batchSize of
                Inl e \<Rightarrow> Inl e
              | Inr bufs \<Rightarrow>
                  (case getBatch src batchSize bufs draw0 of
                     (bufs', Inl e) \<Rightarrow> Inl e
                   | (bufs', Inr out) \<Rightarrow>
                       (case sequence (map (toShared refused has_ctype) out) of
                          Inl e \<Rightarrow> Inl e
                        | Inr shared_out \<Rightarrow>
                            (case getIndexBatch src [0..<batchSize] of
                               Inl e \<Rightarrow> Inl e
                             | Inr first \<Rightarrow>
                                 (case sequence (map (toShared refused has_ctype) first) of
                                    Inl e \<Rightarrow> Inl e
                                  | Inr shared_in \<Rightarrow>
                                      Inr \<lparr>workerIndices = procIndices,
                                           augs = map fromShared shared_out,
                                           inArrays = map fromShared shared_in,
                                           batchQueue = None, isRunning = True,
                                           batchThread = Running\<rparr>)))))))"

text \<open>
  One pass of the loop of \<^verbatim>\<open>_batchThread\<close>, up to the \<^verbatim>\<open>put\<close>. An exception is caught
  by the \<^verbatim>\<open>except\<close> clause around the loop, which puts it on the queue and lets the
  thread return.
\<close>

definition process_iteration ::
  "('d, 'm, 'v) data_source \<Rightarrow> nat \<Rightarrow> ('d, 'm, 'v) generator \<Rightarrow> nat list \<Rightarrow> ('d, 'm, 'v) generator" where
  "process_iteration src batchSize g draw =
     (if \<not> isRunning g then g\<lparr>batchThread := Finished\<rparr>
      else (case getRandomBatch src batchSize draw of
              Inl e \<Rightarrow> g\<lparr>batchThread := Putting (Failure e) False\<rparr>
            | Inr batch \<Rightarrow>
                (case assign_zip (inArrays g) batch of
                   (ins, Some e) \<Rightarrow> g\<lparr>inArrays := ins, batchThread := Putting (Failure e) False\<rparr>
                 | (ins, None) \<Rightarrow>
                     if augments src \<noteq> []
                     then (case pool_map (augments src) ins (augs g) (workerIndices g) of
                             (out, Some e) \<Rightarrow>
                               g\<lparr>augs := out, inArrays := ins, batchThread := Putting (Failure e) False\<rparr>
                           | (out, None) \<Rightarrow>
                               g\<lparr>augs := out, inArrays := ins,
                                 batchThread := Putting (Batch (map copy out)) True\<rparr>)
                     else g\<lparr>inArrays := ins, batchThread := Putting (Batch (map copy (augs g))) True\<rparr>)))"

definition process_step ::
  "('d, 'm, 'v) data_source \<Rightarrow> nat \<Rightarrow> ('d, 'm, 'v) generator \<Rightarrow> nat list \<Rightarrow> ('d, 'm, 'v) generator" where
  "process_step src batchSize g draw =
     (case batchThread g of
        Running \<Rightarrow> process_iteration src batchSize g draw
      | _ \<Rightarrow> producer_put g)"

text \<open>
  \<^verbatim>\<open>_get\<close>, the pull of the process-pool strategy: a value from the queue that is not
  a tuple is raised. The caller waits (\<open>None\<close>) while the queue is empty.
\<close>

definition process_pull ::
  "('d, 'm, 'v) generator \<Rightarrow> ((exn + ('d, 'm, 'v) ndarray list) \<times> ('d, 'm, 'v) generator) option" where
  "process_pull g =
     (case queue_get True (batchQueue g) of
        (Item (Batch v), q) \<Rightarrow> Some (Inr v, g\<lparr>batchQueue := q\<rparr>)
      | (Item (Failure e), q) \<Rightarrow> Some (Inl e, g\<lparr>batchQueue := q\<rparr>)
      | _ \<Rightarrow> None)"

subsection \<open>Successive pulls\<close>


fun thread_pulls ::
  "('d, 'm, 'v) data_source \<Rightarrow> nat \<Rightarrow> ('d, 'm, 'v) generator \<Rightarrow> nat list list \<Rightarrow> ('d, 'm, 'v) payload list" where
  "thread_pulls src batchSize g [] = []"
| "thread_pulls src batchSize g (d # ds) =
     (case thread_pull (thread_step src batchSize (thread_step src batchSize g d) d) of
        None \<Rightarrow> []
      | Some (v, g') \<Rightarrow> v # thread_pulls src batchSize g' ds)"

fun process_pulls ::
  "('d, 'm, 'v) data_source \<Rightarrow> nat \<Rightarrow> ('d, 'm, 'v) generator \<Rightarrow> nat list list
     \<Rightarrow> (exn + ('d, 'm, 'v) ndarray list) list" where
  "process_pulls src batchSize g [] = []"
| "process_pulls src batchSize g (d # ds) =
     (case process_pull (process_step src batchSize (process_step src batchSize g d) d) of
        None \<Rightarrow> []
      | Some (r, g') \<Rightarrow> r # process_pulls src batchSize g' ds)"






section \<open>The buffering store\<close>

text \<open>
  The loop \<^verbatim>\<open>for i in range(len(self.arrays))\<close> of \<^verbatim>\<open>appendBuffer\<close> on the
  remaining indices: \<open>cur\<close> is \<^verbatim>\<open>self.arrays\<close>, assigned to in place, \<open>new\<close> the
  tuple of supplied arrays. The result is \<^verbatim>\<open>self.arrays\<close> as the loop leaves it and the
  exception, if one was raised.
\<close>

fun append_from ::
  "('d \<Rightarrow> 'd \<Rightarrow> 'd) \<Rightarrow> ('d, 'm, 'v) ndarray list \<Rightarrow> ('d, 'm, 'v) ndarray list \<Rightarrow> nat list
     \<Rightarrow> ('d, 'm, 'v) ndarray list \<times> exn option" where
  "append_from promote cur new [] = (cur, None)"
| "append_from promote cur new (i # indices) =
     (if i < length new
      then (case concatenate promote (cur ! i) (new ! i) of
              Inl e \<Rightarrow> (cur, Some e)
            | Inr a \<Rightarrow> append_from promote (cur[i := a]) new indices)
      else (cur, Some IndexError))"

text \<open>
  \<^verbatim>\<open>BufferDataSource.appendBuffer\<close>: the store after the call and the exception, if one
  was raised.
\<close>

definition appendBuffer ::
  "('d \<Rightarrow> 'd \<Rightarrow> 'd) \<Rightarrow> ('d, 'm, 'v) data_source \<Rightarrow> ('d, 'm, 'v) ndarray list
     \<Rightarrow> ('d, 'm, 'v) data_source \<times> exn option" where
  "appendBuffer promote src new =
     (case (if arrays src = [] then (new, None)
            else append_from promote (arrays src) new [0..<length (arrays src)]) of
        (arrs, Some e) \<Rightarrow> (src\<lparr>arrays := arrs\<rparr>, Some e)
      | (arrs, None) \<Rightarrow>
          (case selectProbs src of
             None \<Rightarrow> (src\<lparr>arrays := arrs\<rparr>, None)
           | Some ws \<Rightarrow>
               (case arrs of
                  [] \<Rightarrow> (src\<lparr>arrays := arrs\<rparr>, Some IndexError)
                | a # _ \<Rightarrow>
                    (case shape a of
                       [] \<Rightarrow> (src\<lparr>arrays := arrs\<rparr>, Some IndexError)
                     | n # _ \<Rightarrow>
                         (src\<lparr>arrays := arrs, selectProbs := Some (replicate n (1 / real n))\<rparr>,
                          None)))))"

section \<open>The file-backed store\<close>

text \<open>
  The state of a \<^verbatim>\<open>FileDataSource\<close> that its cache touches: \<open>imageCache\<close> is the
  dictionary from path to decoded image, kept as an association list in insertion order
  (the order in which Python iterates over a dict); \<open>currentSize\<close> and \<open>maxSize\<close> are
  the recorded cache size and the byte budget.
\<close>

record ('d, 'm, 'v) file_source =
  imageCache :: "(string \<times> ('d, 'm, 'v) ndarray) list"
  currentSize :: int
  maxSize :: int

text \<open>
  \<^verbatim>\<open>_getCachedFile\<close>. The parameter \<open>loadFile\<close> is the decoding of the file at a path
  (it raises when the file cannot be read), \<open>itemsize\<close> the item size of a dtype. The
  result is the state after the call and the image or the exception.
\<close>

definition getCachedFile ::
  "(string \<Rightarrow> exn + ('d, 'm, 'v) ndarray) \<Rightarrow> ('d \<Rightarrow> nat) \<Rightarrow> ('d, 'm, 'v) file_source \<Rightarrow> string
     \<Rightarrow> ('d, 'm, 'v) file_source \<times> (exn + ('d, 'm, 'v) ndarray)" where
  "getCachedFile loadFile itemsize st path =
     (case map_of (imageCache st) path of
        Some im \<Rightarrow> (st, Inr im)
      | None \<Rightarrow>
          (case loadFile path of
             Inl e \<Rightarrow> (st, Inl e)
           | Inr im \<Rightarrow>
               (st\<lparr>currentSize := currentSize st + nbytes itemsize im,
                    imageCache := imageCache st @ [(path, im)]\<rparr>, Inr im)))"

text \<open>The loop of \<^verbatim>\<open>_removeFiles\<close> over the remaining \<open>candidates\<close>.\<close>

fun evict ::
  "('d \<Rightarrow> nat) \<Rightarrow> string list \<Rightarrow> ('d, 'm, 'v) file_source \<Rightarrow> ('d, 'm, 'v) file_source \<times> exn option" where
  "evict itemsize [] st = (st, None)"
| "evict itemsize (c # candidates) st =
     (if currentSize st > maxSize st
      then (case map_of (imageCache st) c of
              None \<Rightarrow> (st, Some KeyError)
            | Some im \<Rightarrow>
                evict itemsize candidates
                  (st\<lparr>currentSize := currentSize st - nbytes itemsize im,
                       imageCache := filter (\<lambda>kv. fst kv \<noteq> c) (imageCache st)\<rparr>))
      else (st, None))"

definition removeFiles ::
  "('d \<Rightarrow> nat) \<Rightarrow> ('d, 'm, 'v) file_source \<Rightarrow> ('d, 'm, 'v) file_source \<times> exn option" where
  "removeFiles itemsize st =
     (if maxSize st \<le> 0 then (st, None)
      else evict itemsize (map fst (imageCache st)) st)"

text \<open>\<^verbatim>\<open>arr[chosenInds]\<close> on a one-dimensional array of paths.\<close>

definition take_paths :: "string list \<Rightarrow> nat list \<Rightarrow> exn + string list" where
  "take_paths arr inds =
     (if \<forall>i \<in> set inds. i < length arr then Inr (map (\<lambda>i. arr ! i) inds) else Inl IndexError)"

text \<open>The loop \<^verbatim>\<open>for i,c in enumerate(chosen): out[i]=self._getCachedFile(c)\<close>.\<close>

fun fill_rows ::
  "(string \<Rightarrow> exn + ('d, 'm, 'v) ndarray) \<Rightarrow> ('d \<Rightarrow> nat) \<Rightarrow> ('d, 'm, 'v) file_source
     \<Rightarrow> ('d, 'm, 'v) ndarray \<Rightarrow> nat \<Rightarrow> string list
     \<Rightarrow> ('d, 'm, 'v) file_source \<times> (exn + ('d, 'm, 'v) ndarray)" where
  "fill_rows loadFile itemsize st out i [] = (st, Inr out)"
| "fill_rows loadFile itemsize st out i (c # cs) =
     (case getCachedFile loadFile itemsize st c of
        (st', Inl e) \<Rightarrow> (st', Inl e)
      | (st', Inr im) \<Rightarrow>
          (case setitem out i im of
             Inl e \<Rightarrow> (st', Inl e)
           | Inr out' \<Rightarrow> fill_rows loadFile itemsize st' out' (Suc i) cs))"

text \<open>The body of the loop \<^verbatim>\<open>for arr in self.arrays\<close> of \<^verbatim>\<open>_dataGen\<close>.\<close>

definition fetch_array ::
  "(string \<Rightarrow> exn + ('d, 'm, 'v::zero) ndarray) \<Rightarrow> ('d \<Rightarrow> nat) \<Rightarrow> ('d, 'm, 'v) file_source
     \<Rightarrow> string list \<Rightarrow> nat list \<Rightarrow> ('d, 'm, 'v) file_source \<times> (exn + ('d, 'm, 'v) ndarray)" where
  "fetch_array loadFile itemsize st arr chosenInds =
     (case take_paths arr chosenInds of
        Inl e \<Rightarrow> (st, Inl e)
      | Inr chosen \<Rightarrow>
          (case chosen of
             [] \<Rightarrow> (st, Inl IndexError)
           | c0 # _ \<Rightarrow>
               (case getCachedFile loadFile itemsize st c0 of
                  (st', Inl e) \<Rightarrow> (st', Inl e)
                | (st', Inr im) \<Rightarrow>
                    fill_rows loadFile itemsize st'
                      (zeros (length chosenInds # shape im) (dtype im)) 0 chosen)))"

fun fetch_arrays ::
  "(string \<Rightarrow> exn + ('d, 'm, 'v::zero) ndarray) \<Rightarrow> ('d \<Rightarrow> nat) \<Rightarrow> ('d, 'm, 'v) file_source
     \<Rightarrow> string list list \<Rightarrow> nat list \<Rightarrow> ('d, 'm, 'v) file_source \<times> (exn + ('d, 'm, 'v) ndarray list)" where
  "fetch_arrays loadFile itemsize st [] chosenInds = (st, Inr [])"
| "fetch_arrays loadFile itemsize st (arr # arrs) chosenInds =
     (case fetch_array loadFile itemsize st arr chosenInds of
        (st', Inl e) \<Rightarrow> (st', Inl e)
      | (st', Inr out) \<Rightarrow>
          (case fetch_arrays loadFile itemsize st' arrs chosenInds of
             (st'', Inl e) \<Rightarrow> (st'', Inl e)
           | (st'', Inr outs) \<Rightarrow> (st'', Inr (out # outs))))"

text \<open>
  \<^verbatim>\<open>FileDataSource._dataGen\<close> on the arrays of paths \<open>filelists\<close>; \<open>draw\<close> is the outcome of
  the random choice made when no indices are supplied (\<open>chosen_indices\<close> is its first
  statement).
\<close>

definition chosen_indices ::
  "string list list \<Rightarrow> nat \<Rightarrow> real list option \<Rightarrow> nat list option \<Rightarrow> nat list \<Rightarrow> exn + nat list" where
  "chosen_indices filelists batchSize probs chosenInds draw =
     (case chosenInds of
        Some inds \<Rightarrow> Inr inds
      | None \<Rightarrow>
          (case filelists of
             [] \<Rightarrow> Inl IndexError
           | arr # _ \<Rightarrow> random_choice (length arr) batchSize probs draw))"

definition dataGen_file ::
  "(string \<Rightarrow> exn + ('d, 'm, 'v::zero) ndarray) \<Rightarrow> ('d \<Rightarrow> nat) \<Rightarrow> ('d, 'm, 'v) file_source
     \<Rightarrow> string list list \<Rightarrow> nat \<Rightarrow> real list option \<Rightarrow> nat list option \<Rightarrow> nat list
     \<Rightarrow> ('d, 'm, 'v) file_source \<times> (exn + ('d, 'm, 'v) ndarray list)" where
  "dataGen_file loadFile itemsize st filelists batchSize probs chosenInds draw =
     (case chosen_indices filelists batchSize probs chosenInds draw of
        Inl e \<Rightarrow> (st, Inl e)
      | Inr inds \<Rightarrow>
          (case fetch_arrays loadFile itemsize st filelists inds of
             (mid, Inl e) \<Rightarrow> (mid, Inl e)
           | (mid, Inr outs) \<Rightarrow>
               (case removeFiles itemsize mid of
                  (st', Some e) \<Rightarrow> (st', Inl e)
                | (st', None) \<Rightarrow> (st', Inr outs))))"

text \<open>The bytes held by a cache, and the invariants of the cache.\<close>

definition cache_bytes :: "('d \<Rightarrow> nat) \<Rightarrow> (string \<times> ('d, 'm, 'v) ndarray) list \<Rightarrow> int" where
  "cache_bytes itemsize cache = sum_list (map (\<lambda>kv. nbytes itemsize (snd kv)) cache)"

definition keys_distinct :: "('d, 'm, 'v) file_source \<Rightarrow> bool" where
  "keys_distinct st \<longleftrightarrow> distinct (map fst (imageCache st))"

definition size_inv :: "('d \<Rightarrow> nat) \<Rightarrow> ('d, 'm, 'v) file_source \<Rightarrow> bool" where
  "size_inv itemsize st \<longleftrightarrow> currentSize st = cache_bytes itemsize (imageCache st)"

text \<open>Whether an exception is an \<^verbatim>\<open>AssertionError\<close>.\<close>

definition is_assertion :: "exn \<Rightarrow> bool" where
  "is_assertion e = (case e of AssertionError m \<Rightarrow> True | _ \<Rightarrow> False)"

section \<open>Example inputs\<close>

text \<open>
  A loader that decodes every path to a two-element image (one byte per element) and a
  store with a budget of three bytes, and the states of a fetch of three files through it.
\<close>

definition ex_load :: "string \<Rightarrow> exn + (unit, unit, nat) ndarray" where
  "ex_load p = Inr \<lparr>shape = [2], dtype = (), memory = Given (), items = [length p, 7]\<rparr>"

definition ex_itemsize :: "unit \<Rightarrow> nat" where
  "ex_itemsize d = 1"

definition ex_files :: "(unit, unit, nat) file_source" where
  "ex_files = \<lparr>imageCache = [], currentSize = 0, maxSize = 3\<rparr>"

definition ex_paths :: "string list list" where
  "ex_paths = [[''a'', ''bb'', ''ccc'']]"

definition ex_files_mid :: "(unit, unit, nat) file_source" where
  "ex_files_mid =
     \<lparr>imageCache = [(''a'', \<lparr>shape = [2], dtype = (), memory = Given (), items = [1, 7]\<rparr>),
                     (''bb'', \<lparr>shape = [2], dtype = (), memory = Given (), items = [2, 7]\<rparr>),
                     (''ccc'', \<lparr>shape = [2], dtype = (), memory = Given (), items = [3, 7]\<rparr>)],
      currentSize = 6, maxSize = 3\<rparr>"

definition ex_files_outs :: "(unit, unit, nat) ndarray list" where
  "ex_files_outs =
     [\<lparr>shape = [3, 2], dtype = (), memory = Allocated [3, 2], items = [1, 7, 2, 7, 3, 7]\<rparr>]"

text \<open>
  A store of three records in two aligned arrays (pairs and scalars), a stage that doubles
  every element, a batch of the store for the draw \<open>[2, 0, 1]\<close>, zeroed output
  buffers for batches of three, and the buffers after the stage has been applied to every
  row of the batch.
\<close>

definition ex_store :: "(unit, unit, nat) data_source" where
  "ex_store =
     \<lparr>arrays = [\<lparr>shape = [3, 2], dtype = (), memory = Given (), items = [1, 2, 3, 4, 5, 6]\<rparr>,
                \<lparr>shape = [3], dtype = (), memory = Given (), items = [7, 8, 9]\<rparr>],
      selectProbs = None, augments = []\<rparr>"

definition ex_double :: "(unit, unit, nat) stage" where
  "ex_double rs =
     Inr (map (\<lambda>a. a\<lparr>memory := Allocated (shape a), items := map (\<lambda>x. 2 * x) (items a)\<rparr>) rs)"

definition ex_doubling_store :: "(unit, unit, nat) data_source" where
  "ex_doubling_store = ex_store\<lparr>augments := [ex_double]\<rparr>"

definition ex_batch :: "(unit, unit, nat) ndarray list" where
  "ex_batch =
     [\<lparr>shape = [3, 2], dtype = (), memory = Indexed (Given ()) 3, items = [5, 6, 1, 2, 3, 4]\<rparr>,
      \<lparr>shape = [3], dtype = (), memory = Indexed (Given ()) 3, items = [9, 7, 8]\<rparr>]"

definition ex_bufs :: "(unit, unit, nat) ndarray list" where
  "ex_bufs = [zeros [3, 2] (), zeros [3] ()]"

definition ex_doubled :: "(unit, unit, nat) ndarray list" where
  "ex_doubled =
     [\<lparr>shape = [3, 2], dtype = (), memory = Allocated [3, 2], items = [10, 12, 2, 4, 6, 8]\<rparr>,
      \<lparr>shape = [3], dtype = (), memory = Allocated [3], items = [18, 14, 16]\<rparr>]"

text \<open>
  A random source that counts its draws, whose coin flips succeed on even counts, and a
  decorated function whose transform adds the count at which it was made.
\<close>

definition ex_randChoice :: "real \<Rightarrow> nat \<Rightarrow> bool \<times> nat" where
  "ex_randChoice p s = (even s, Suc s)"

definition ex_func :: "nat list \<Rightarrow> unit \<Rightarrow> nat \<Rightarrow> (exn + (nat \<Rightarrow> exn + nat)) \<times> nat" where
  "ex_func args k s = (Inr (\<lambda>x. Inr (x + s)), Suc s)"

definition ex_kwargs :: "unit kwargs" where
  "ex_kwargs = \<lparr>kw_prob = None, kw_applyIndices = None, kw_rest = ()\<rparr>"

text \<open>A buffering store that holds one array of two scalars, and a dtype promotion.\<close>

definition ex_buffer :: "(unit, unit, nat) data_source" where
  "ex_buffer =
     \<lparr>arrays = [\<lparr>shape = [2], dtype = (), memory = Given (), items = [1, 2]\<rparr>], selectProbs = None, augments = []\<rparr>"

definition ex_promote :: "unit \<Rightarrow> unit \<Rightarrow> unit" where
  "ex_promote d e = ()"

definition ex_row :: "(unit, unit, nat) ndarray" where
  "ex_row = \<lparr>shape = [1], dtype = (), memory = Given (), items = [3]\<rparr>"

text \<open>
  A store of the two scalar records 1 and 2, without a pipeline and with a pipeline whose
  only stage raises on the record 2.
\<close>

definition ex_scalars :: "(unit, unit, nat) data_source" where
  "ex_scalars =
     \<lparr>arrays = [\<lparr>shape = [2], dtype = (), memory = Given (), items = [1, 2]\<rparr>], selectProbs = None, augments = []\<rparr>"

definition ex_reject :: "(unit, unit, nat) stage" where
  "ex_reject rs =
     (case rs of
        [] \<Rightarrow> Inr rs
      | r # _ \<Rightarrow> if items r = [2] then Inl (StageError ''bad record'') else Inr rs)"

definition ex_rejecting :: "(unit, unit, nat) data_source" where
  "ex_rejecting = ex_scalars\<lparr>augments := [ex_reject]\<rparr>"

section \<open>Properties\<close>


subsection \<open>The cache of the file-backed store\<close>

lemma filter_head_key:
  "c \<notin> fst ` set rest \<Longrightarrow> filter (\<lambda>kv. fst kv \<noteq> c) rest = rest"
  by (induction rest) auto

lemma cache_bytes_Cons:
  "cache_bytes isz (kv # cache) = nbytes isz (snd kv) + cache_bytes isz cache"
  by (simp add: cache_bytes_def)

lemma cache_bytes_append:
  "cache_bytes isz (xs @ ys) = cache_bytes isz xs + cache_bytes isz ys"
  by (simp add: cache_bytes_def)

lemma evict_spec:
  assumes "imageCache st = cache" "distinct (map fst cache)" "currentSize st = cache_bytes isz cache"
  shows "\<exists>k \<le> length cache.
           evict isz (map fst cache) st
             = (st\<lparr>currentSize := cache_bytes isz (drop k cache), imageCache := drop k cache\<rparr>, None)
         \<and> (\<forall>j < k. maxSize st < cache_bytes isz (drop j cache))
         \<and> (cache_bytes isz (drop k cache) \<le> maxSize st \<or> k = length cache)"
  using assms
proof (induction cache arbitrary: st)
  case Nil
  then show ?case by simp
next
  case (Cons kv rest)
  obtain c im where kv: "kv = (c, im)" by (cases kv)
  show ?case
  proof (cases "currentSize st > maxSize st")
    case False
    have "evict isz (map fst (kv # rest)) st
            = (st\<lparr>currentSize := cache_bytes isz (drop 0 (kv # rest)), imageCache := drop 0 (kv # rest)\<rparr>, None)"
      using False Cons.prems by simp
    moreover have "cache_bytes isz (drop 0 (kv # rest)) \<le> maxSize st"
      using False Cons.prems by simp
    ultimately show ?thesis by (intro exI[of _ 0]) simp
  next
    case True
    let ?st1 = "st\<lparr>currentSize := currentSize st - nbytes isz im,
                    imageCache := filter (\<lambda>kv. fst kv \<noteq> c) (imageCache st)\<rparr>"
    have notin: "c \<notin> fst ` set rest" using Cons.prems(2) kv by auto
    have cache1: "imageCache ?st1 = rest"
      using Cons.prems(1) kv notin by (simp add: filter_head_key)
    have size1: "currentSize ?st1 = cache_bytes isz rest"
      using Cons.prems(3) kv by (simp add: cache_bytes_Cons)
    have step: "evict isz (map fst (kv # rest)) st = evict isz (map fst rest) ?st1"
      using True Cons.prems(1) kv by simp
    from Cons.IH[OF cache1 _ size1] Cons.prems(2)
    obtain k where k: "k \<le> length rest"
      "evict isz (map fst rest) ?st1
         = (?st1\<lparr>currentSize := cache_bytes isz (drop k rest), imageCache := drop k rest\<rparr>, None)"
      "\<forall>j < k. maxSize ?st1 < cache_bytes isz (drop j rest)"
      "cache_bytes isz (drop k rest) \<le> maxSize ?st1 \<or> k = length rest"
      by auto
    have all: "\<forall>j < Suc k. maxSize st < cache_bytes isz (drop j (kv # rest))"
    proof (intro allI impI)
      fix j assume "j < Suc k"
      then show "maxSize st < cache_bytes isz (drop j (kv # rest))"
        using k(3) True Cons.prems(3) by (cases j) auto
    qed
    show ?thesis
      using k(1,2,4) all step by (intro exI[of _ "Suc k"]) simp
  qed
qed

lemma getCachedFile_inv:
  assumes "getCachedFile load isz st p = (st', r)" "keys_distinct st" "size_inv isz st"
  shows "keys_distinct st' \<and> size_inv isz st' \<and> maxSize st' = maxSize st"
  using assms
  by (auto simp: getCachedFile_def keys_distinct_def size_inv_def cache_bytes_append cache_bytes_def
           map_of_eq_None_iff split: option.splits sum.splits)

lemma fill_rows_inv:
  assumes "fill_rows load isz st out i cs = (st', r)" "keys_distinct st" "size_inv isz st"
  shows "keys_distinct st' \<and> size_inv isz st' \<and> maxSize st' = maxSize st"
  using assms
proof (induction cs arbitrary: st out i)
  case Nil
  then show ?case by simp
next
  case (Cons c cs)
  obtain st1 r1 where g: "getCachedFile load isz st c = (st1, r1)" by (cases "getCachedFile load isz st c")
  note inv1 = getCachedFile_inv[OF g Cons.prems(2,3)]
  show ?case
  proof (cases r1)
    case (Inl e)
    then show ?thesis using Cons.prems(1) g inv1 by simp
  next
    case (Inr im)
    show ?thesis
    proof (cases "setitem out i im")
      case (Inl e)
      then show ?thesis using Cons.prems(1) g Inr inv1 by simp
    next
      case (Inr out')
      then have "fill_rows load isz st1 out' (Suc i) cs = (st', r)"
        using Cons.prems(1) g \<open>r1 = Inr im\<close> by simp
      from Cons.IH[OF this] inv1 show ?thesis by simp
    qed
  qed
qed

lemma fetch_array_inv:
  assumes "fetch_array load isz st arr inds = (st', r)" "keys_distinct st" "size_inv isz st"
  shows "keys_distinct st' \<and> size_inv isz st' \<and> maxSize st' = maxSize st"
proof (cases "take_paths arr inds")
  case (Inl e)
  then show ?thesis using assms by (simp add: fetch_array_def)
next
  case (Inr chosen)
  show ?thesis
  proof (cases chosen)
    case Nil
    then show ?thesis using assms Inr by (simp add: fetch_array_def)
  next
    case (Cons c0 rest)
    obtain st1 r1 where g: "getCachedFile load isz st c0 = (st1, r1)" by (cases "getCachedFile load isz st c0")
    note inv1 = getCachedFile_inv[OF g assms(2,3)]
    show ?thesis
    proof (cases r1)
      case (Inl e)
      then show ?thesis using assms(1) Inr Cons g inv1 by (simp add: fetch_array_def)
    next
      case (Inr im)
      then have "fill_rows load isz st1 (zeros (length inds # shape im) (dtype im)) 0 chosen = (st', r)"
        using assms(1) \<open>take_paths arr inds = Inr chosen\<close> Cons g by (simp add: fetch_array_def)
      from fill_rows_inv[OF this] inv1 show ?thesis by simp
    qed
  qed
qed

lemma fetch_arrays_inv:
  assumes "fetch_arrays load isz st arrs inds = (st', r)" "keys_distinct st" "size_inv isz st"
  shows "keys_distinct st' \<and> size_inv isz st' \<and> maxSize st' = maxSize st"
  using assms
proof (induction arrs arbitrary: st st' r)
  case Nil
  then show ?case by simp
next
  case (Cons arr arrs)
  obtain st1 r1 where g: "fetch_array load isz st arr inds = (st1, r1)" by (cases "fetch_array load isz st arr inds")
  note inv1 = fetch_array_inv[OF g Cons.prems(2,3)]
  show ?case
  proof (cases r1)
    case (Inl e)
    then show ?thesis using Cons.prems(1) g inv1 by simp
  next
    case (Inr out)
    obtain st2 r2 where h: "fetch_arrays load isz st1 arrs inds = (st2, r2)"
      by (cases "fetch_arrays load isz st1 arrs inds")
    from Cons.IH[OF h] inv1 have inv2: "keys_distinct st2 \<and> size_inv isz st2 \<and> maxSize st2 = maxSize st"
      by simp
    have "st' = st2" using Cons.prems(1) g Inr h by (cases r2) simp_all
    then show ?thesis using inv2 by simp
  qed
qed


text \<open>
  Claim C7. For the file-backed store with a positive byte budget, a batch fetch that
  returns ends with the eviction loop: the cache it leaves is the cache after the loads
  with its \<open>k\<close> oldest entries removed (insertion order, oldest first), every one of
  these removals was made while the cached bytes still exceeded the budget (so the loop
  stops as soon as the total is within the budget), and afterwards the recorded size is
  the total of the cached bytes and is at most the budget.
\<close>

theorem dataGen_file_evicts_fifo:
  assumes "0 < maxSize st" "keys_distinct st" "size_inv isz st"
    and "chosen_indices filelists batchSize probs chosenInds draw = Inr inds"
    and "fetch_arrays load isz st filelists inds = (mid, Inr outs)"
  shows "\<exists>k st'. dataGen_file load isz st filelists batchSize probs chosenInds draw = (st', Inr outs)
           \<and> imageCache st' = drop k (imageCache mid)
           \<and> (\<forall>j < k. maxSize st < cache_bytes isz (drop j (imageCache mid)))
           \<and> currentSize st' = cache_bytes isz (imageCache st')
           \<and> currentSize st' \<le> maxSize st"
proof -
  from fetch_arrays_inv[OF assms(5,2,3)]
  have mid: "distinct (map fst (imageCache mid))" "currentSize mid = cache_bytes isz (imageCache mid)"
    "maxSize mid = maxSize st"
    by (simp_all add: keys_distinct_def size_inv_def)
  from evict_spec[OF refl mid(1,2)]
  obtain k where k: "k \<le> length (imageCache mid)"
    "evict isz (map fst (imageCache mid)) mid
       = (mid\<lparr>currentSize := cache_bytes isz (drop k (imageCache mid)),
               imageCache := drop k (imageCache mid)\<rparr>, None)"
    "\<forall>j < k. maxSize mid < cache_bytes isz (drop j (imageCache mid))"
    "cache_bytes isz (drop k (imageCache mid)) \<le> maxSize mid \<or> k = length (imageCache mid)"
    by blast
  let ?st' = "mid\<lparr>currentSize := cache_bytes isz (drop k (imageCache mid)),
                   imageCache := drop k (imageCache mid)\<rparr>"
  have run: "dataGen_file load isz st filelists batchSize probs chosenInds draw = (?st', Inr outs)"
    using assms(1,4,5) k(2) mid(3) by (simp add: dataGen_file_def removeFiles_def)
  have le: "cache_bytes isz (drop k (imageCache mid)) \<le> maxSize st"
    using k(4) mid(3) assms(1) by (auto simp: cache_bytes_def)
  show ?thesis
    using run k(3) le mid(3) by (intro exI[of _ k] exI[of _ ?st']) simp
qed

theorem dataGen_file_evicts_fifo_witness:
  "0 < maxSize ex_files \<and> keys_distinct ex_files \<and> size_inv ex_itemsize ex_files
   \<and> chosen_indices ex_paths 3 None None [0, 1, 2] = Inr [0, 1, 2]
   \<and> fetch_arrays ex_load ex_itemsize ex_files ex_paths [0, 1, 2] = (ex_files_mid, Inr ex_files_outs)
   \<and> (\<exists>k st'. dataGen_file ex_load ex_itemsize ex_files ex_paths 3 None None [0, 1, 2] = (st', Inr ex_files_outs)
          \<and> imageCache st' = drop k (imageCache ex_files_mid)
          \<and> currentSize st' \<le> maxSize ex_files)"
proof -
  have h1: "0 < maxSize ex_files" by (simp add: ex_files_def)
  have h2: "keys_distinct ex_files" by (simp add: ex_files_def keys_distinct_def)
  have h3: "size_inv ex_itemsize ex_files" by (simp add: ex_files_def size_inv_def cache_bytes_def)
  have h4: "chosen_indices ex_paths 3 None None [0, 1, 2] = Inr [0, 1, 2]"
    by (simp add: chosen_indices_def ex_paths_def random_choice_def)
  have h5: "fetch_arrays ex_load ex_itemsize ex_files ex_paths [0, 1, 2] = (ex_files_mid, Inr ex_files_outs)"
    by code_simp
  from dataGen_file_evicts_fifo[OF h1 h2 h3 h4 h5] h1 h2 h3 h4 h5 show ?thesis by blast
qed

text \<open>
  Claim C10. The recorded cache size of the file-backed store equals the sum of the byte
  sizes of the images held in the cache: the invariant holds of the empty cache, and both
  loading a file into the cache (\<^verbatim>\<open>_getCachedFile\<close>) and running eviction
  (\<^verbatim>\<open>_removeFiles\<close>) preserve it, together with the distinctness of the cache's keys.
\<close>

theorem cache_size_invariant:
  assumes "keys_distinct st" "size_inv isz st"
  shows "size_inv isz (fst (getCachedFile load isz st path))
       \<and> keys_distinct (fst (getCachedFile load isz st path))
       \<and> size_inv isz (fst (removeFiles isz st))
       \<and> keys_distinct (fst (removeFiles isz st))
       \<and> size_inv isz \<lparr>imageCache = [], currentSize = 0, maxSize = m\<rparr>"
proof -
  have a: "size_inv isz (fst (getCachedFile load isz st path))
         \<and> keys_distinct (fst (getCachedFile load isz st path))"
    using getCachedFile_inv[OF _ assms, of load path] by (cases "getCachedFile load isz st path") simp
  have d: "distinct (map fst (imageCache st))" "currentSize st = cache_bytes isz (imageCache st)"
    using assms by (simp_all add: keys_distinct_def size_inv_def)
  from evict_spec[OF refl d]
  obtain k where k: "evict isz (map fst (imageCache st)) st
       = (st\<lparr>currentSize := cache_bytes isz (drop k (imageCache st)),
              imageCache := drop k (imageCache st)\<rparr>, None)"
    by blast
  have b: "size_inv isz (fst (removeFiles isz st)) \<and> keys_distinct (fst (removeFiles isz st))"
    using k assms d(1)
    by (simp add: removeFiles_def size_inv_def keys_distinct_def drop_map[symmetric])
  have c: "size_inv isz \<lparr>imageCache = [], currentSize = 0, maxSize = m\<rparr>"
    by (simp add: size_inv_def cache_bytes_def)
  from a b c show ?thesis by simp
qed

theorem cache_size_invariant_witness:
  "keys_distinct ex_files_mid \<and> size_inv ex_itemsize ex_files_mid
   \<and> size_inv ex_itemsize (fst (getCachedFile ex_load ex_itemsize ex_files_mid ''dddd''))
   \<and> currentSize (fst (getCachedFile ex_load ex_itemsize ex_files_mid ''dddd'')) = 8
   \<and> size_inv ex_itemsize (fst (removeFiles ex_itemsize ex_files_mid))
   \<and> currentSize (fst (removeFiles ex_itemsize ex_files_mid)) = 2"
proof -
  have h1: "keys_distinct ex_files_mid" by (simp add: ex_files_mid_def keys_distinct_def)
  have h2: "size_inv ex_itemsize ex_files_mid"
    by (simp add: ex_files_mid_def size_inv_def cache_bytes_def nbytes_def ex_itemsize_def)
  have h3: "currentSize (fst (getCachedFile ex_load ex_itemsize ex_files_mid ''dddd'')) = 8"
    by (simp add: getCachedFile_def ex_files_mid_def ex_load_def nbytes_def ex_itemsize_def)
  have h4: "currentSize (fst (removeFiles ex_itemsize ex_files_mid)) = 2"
    by (simp add: removeFiles_def ex_files_mid_def nbytes_def ex_itemsize_def)
  from cache_size_invariant[OF h1 h2, of ex_load "''dddd''" 0] h1 h2 h3 h4 show ?thesis by blast
qed

subsection \<open>Chunked augmentation\<close>

lemma split_sizes_concat:
  "sum_list ms = length xs \<Longrightarrow> concat (split_sizes xs ms) = xs"
proof (induction ms arbitrary: xs)
  case Nil
  then show ?case by simp
next
  case (Cons m ms)
  then have "sum_list ms = length (drop m xs)" by simp
  from Cons.IH[OF this] show ?case by simp
qed

lemma chunk_sizes_sum:
  assumes "0 < k"
  shows "sum_list (replicate (n mod k) (n div k + 1) @ replicate (k - n mod k) (n div k)) = (n::nat)"
proof -
  have r: "n mod k \<le> k" using assms by (simp add: less_imp_le)
  have "n mod k * (n div k + 1) + (k - n mod k) * (n div k)
          = (n mod k + (k - n mod k)) * (n div k) + n mod k"
    by (simp add: algebra_simps)
  also have "\<dots> = k * (n div k) + n mod k" using r by simp
  also have "\<dots> = n" by simp
  finally show ?thesis by (simp add: sum_list_replicate)
qed

lemma array_split_concat:
  assumes "array_split n k = Inr chunks"
  shows "concat chunks = [0..<n]"
proof -
  have k: "0 < k" using assms by (auto simp: array_split_def split: if_splits)
  then have "0 < nat k" by simp
  from chunk_sizes_sum[OF this, of n] assms k show ?thesis
    by (auto simp: array_split_def intro!: split_sizes_concat)
qed

lemma augment_rows_append:
  "augment_rows src arrs bufs (xs @ ys) =
     (case augment_rows src arrs bufs xs of
        (bufs', Some e) \<Rightarrow> (bufs', Some e)
      | (bufs', None) \<Rightarrow> augment_rows src arrs bufs' ys)"
  by (induction xs arbitrary: bufs) (auto split: sum.splits prod.splits option.splits)

lemma run_threads_whole:
  "augment_rows src arrs bufs (concat chunks) = (out, None) \<Longrightarrow> run_threads src arrs bufs chunks = out"
proof (induction chunks arbitrary: bufs)
  case Nil
  then show ?case by (simp add: run_threads_def)
next
  case (Cons c cs)
  obtain b r where c: "augment_rows src arrs bufs c = (b, r)" by (cases "augment_rows src arrs bufs c")
  from Cons.prems c have r: "r = None" and rest: "augment_rows src arrs b (concat cs) = (out, None)"
    by (auto simp: augment_rows_append split: option.splits)
  from Cons.IH[OF rest] c show ?case by (simp add: run_threads_def applyAugments_def)
qed

lemma applyAugmentsProc_eq:
  "applyAugmentsProc (augments src) arrs bufs inds = augment_rows src arrs bufs inds"
  by (induction inds arbitrary: bufs)
     (auto simp: getAugmentedArrays_def split: sum.splits prod.splits option.splits)

lemma pool_map_whole:
  "augment_rows src arrs bufs (concat chunks) = (out, None)
     \<Longrightarrow> pool_map (augments src) arrs bufs chunks = (out, None)"
proof (induction chunks arbitrary: bufs)
  case Nil
  then show ?case by simp
next
  case (Cons c cs)
  obtain b r where c: "augment_rows src arrs bufs c = (b, r)" by (cases "augment_rows src arrs bufs c")
  from Cons.prems c have r: "r = None" and rest: "augment_rows src arrs b (concat cs) = (out, None)"
    by (auto simp: augment_rows_append split: option.splits)
  from Cons.IH[OF rest] c r show ?case by (simp add: applyAugmentsProc_eq)
qed

text \<open>
  Claim C4. For every batch size and worker count for which the row indices are split
  into chunks, and every pipeline of deterministic stages: when applying the augmentation
  step over the whole index range, as the inline strategy does, completes and leaves the
  output buffers \<open>out\<close>, then applying it chunk by chunk over the partition, as the
  worker threads of the thread-pool strategy and the tasks of the process pool do, leaves
  the same output buffers (hence the same rows), and no task raises.
\<close>

theorem chunked_augmentation_matches_inline:
  assumes "array_split batchSize (worker_count batchSize requested cpu_count) = Inr chunks"
    and "applyAugments src batch bufs (Some [0..<batchSize]) = (out, None)"
  shows "run_threads src batch bufs chunks = out
       \<and> pool_map (augments src) batch bufs chunks = (out, None)"
proof -
  have "augment_rows src batch bufs (concat chunks) = (out, None)"
    using assms by (simp add: array_split_concat applyAugments_def)
  then show ?thesis by (simp add: run_threads_whole pool_map_whole)
qed

theorem chunked_augmentation_matches_inline_witness:
  "array_split 3 (worker_count 3 (Some 2) 4) = Inr [[0, 1], [2]]
   \<and> applyAugments ex_doubling_store ex_batch ex_bufs (Some [0..<3]) = (ex_doubled, None)
   \<and> run_threads ex_doubling_store ex_batch ex_bufs [[0, 1], [2]] = ex_doubled
   \<and> pool_map (augments ex_doubling_store) ex_batch ex_bufs [[0, 1], [2]] = (ex_doubled, None)"
proof -
  have h1: "array_split 3 (worker_count 3 (Some 2) 4) = Inr [[0, 1], [2]]" by code_simp
  have h2: "applyAugments ex_doubling_store ex_batch ex_bufs (Some [0..<3]) = (ex_doubled, None)"
    by code_simp
  from chunked_augmentation_matches_inline[OF h1 h2] h1 h2 show ?thesis by simp
qed

subsection \<open>The platform check of the process-pool strategy\<close>

lemma sequence_Inl: "sequence (map f xs) = Inl e \<Longrightarrow> \<exists>x \<in> set xs. f x = Inl e"
  by (induction xs) (auto split: sum.splits)

lemma take_rows_error: "take_rows a inds = Inl e \<Longrightarrow> e = IndexError"
  by (auto simp: take_rows_def split: list.splits if_splits)

lemma getitem_error: "getitem a i = Inl e \<Longrightarrow> e = IndexError"
  by (auto simp: getitem_def split: list.splits if_splits)

lemma setitem_error: "setitem a i v = Inl e \<Longrightarrow> e = IndexError \<or> e = ValueError"
  by (auto simp: setitem_def broadcast_to_def Let_def split: list.splits if_splits sum.splits)

lemma random_choice_error: "random_choice n c p d = Inl e \<Longrightarrow> e = ValueError"
  by (auto simp: random_choice_def split: if_splits option.splits)

lemma defaultDataGen_error:
  "defaultDataGen src bs p ci d = Inl e \<Longrightarrow> \<not> is_assertion e"
  by (auto simp: defaultDataGen_def is_assertion_def split: option.splits list.splits sum.splits
           dest!: sequence_Inl take_rows_error random_choice_error)

lemma run_stages_error:
  "run_stages stages rs = Inl e \<Longrightarrow> \<exists>aug \<in> set stages. \<exists>xs. aug xs = Inl e"
  by (induction stages arbitrary: rs) (auto split: sum.splits)

lemma write_row_error:
  "write_row i outs bufs = (bufs', Some e) \<Longrightarrow> \<not> is_assertion e"
  by (induction i outs bufs arbitrary: bufs' rule: write_row.induct)
     (auto simp: is_assertion_def split: sum.splits prod.splits dest!: setitem_error)

lemma augment_rows_error:
  assumes "\<forall>aug \<in> set (augments src). \<forall>xs e. aug xs = Inl e \<longrightarrow> \<not> is_assertion e"
    and "augment_rows src arrs bufs inds = (bufs', Some e)"
  shows "\<not> is_assertion e"
  using assms(2)
proof (induction inds arbitrary: bufs)
  case Nil
  then show ?case by simp
next
  case (Cons i inds)
  show ?case
  proof (cases "sequence (map (\<lambda>a. getitem a i) arrs)")
    case (Inl x)
    then show ?thesis using Cons.prems
      by (auto simp: is_assertion_def dest!: sequence_Inl getitem_error)
  next
    case (Inr inarrs)
    show ?thesis
    proof (cases "getAugmentedArrays src inarrs")
      case (Inl x)
      then show ?thesis using Cons.prems Inr assms(1)
        by (auto simp: getAugmentedArrays_def dest!: run_stages_error)
    next
      case out: (Inr outarrs)
      obtain b r where w: "write_row i outarrs bufs = (b, r)" by (cases "write_row i outarrs bufs")
      show ?thesis
      proof (cases r)
        case None
        then show ?thesis using Cons.prems Inr out w Cons.IH[of b] by simp
      next
        case (Some x)
        then show ?thesis using Cons.prems Inr out w write_row_error[of i outarrs bufs b x] by simp
      qed
    qed
  qed
qed

lemma localBatchGen_error:
  assumes "\<forall>aug \<in> set (augments src). \<forall>xs e. aug xs = Inl e \<longrightarrow> \<not> is_assertion e"
    and "localBatchGen src bs = Inl e"
  shows "\<not> is_assertion e"
  using assms
  by (auto simp: localBatchGen_def getIndexBatch_def getAugmentedArrays_def is_assertion_def
           split: sum.splits dest!: defaultDataGen_error sequence_Inl getitem_error run_stages_error)

lemma getBatch_error:
  assumes "\<forall>aug \<in> set (augments src). \<forall>xs e. aug xs = Inl e \<longrightarrow> \<not> is_assertion e"
    and "getBatch src bs bufs d = (bufs', Inl e)"
  shows "\<not> is_assertion e"
  using assms augment_rows_error[OF assms(1)]
  by (auto simp: getBatch_def getRandomBatch_def applyAugments_def
           split: sum.splits prod.splits option.splits dest!: defaultDataGen_error)

lemma toShared_error:
  "sequence (map (toShared r h) xs) = Inl e \<Longrightarrow> e = TypeError \<or> e = NotImplementedError"
  by (auto simp: toShared_def dest!: sequence_Inl split: if_splits)

lemma array_split_error: "array_split n k = Inl e \<Longrightarrow> e = ValueError"
  by (auto simp: array_split_def split: if_splits)

lemma processBatchGen_errors:
  assumes "\<forall>aug \<in> set (augments src). \<forall>xs e. aug xs = Inl e \<longrightarrow> \<not> is_assertion e"
  shows "(lower platform = ''windows'' \<longrightarrow>
            processBatchGen platform refused has_ctype src batchSize numProcs cpu_count draw0
              = Inl (AssertionError
                  ''Generating batches with processes requires fork() semantics not present in Windows.''))
       \<and> (lower platform \<noteq> ''windows'' \<longrightarrow>
            (\<forall>e. processBatchGen platform refused has_ctype src batchSize numProcs cpu_count draw0 = Inl e
                  \<longrightarrow> \<not> is_assertion e))"
proof (intro conjI impI allI)
  assume "lower platform = ''windows''"
  then show "processBatchGen platform refused has_ctype src batchSize numProcs cpu_count draw0
              = Inl (AssertionError
                  ''Generating batches with processes requires fork() semantics not present in Windows.'')"
    by (simp add: processBatchGen_def)
next
  fix e
  assume p: "lower platform \<noteq> ''windows''"
    and r: "processBatchGen platform refused has_ctype src batchSize numProcs cpu_count draw0 = Inl e"
  show "\<not> is_assertion e"
  proof (cases "array_split batchSize (worker_count batchSize numProcs cpu_count)")
    case (Inl x)
    then show ?thesis using p r by (auto simp: processBatchGen_def is_assertion_def dest!: array_split_error)
  next
    case chunks: (Inr procIndices)
    show ?thesis
    proof (cases "localBatchGen src batchSize")
      case (Inl x)
      then show ?thesis using p r chunks localBatchGen_error[OF assms, of batchSize x]
        by (simp add: processBatchGen_def)
    next
      case bufs: (Inr bufs)
      obtain b' res where gb: "getBatch src batchSize bufs draw0 = (b', res)"
        by (cases "getBatch src batchSize bufs draw0")
      show ?thesis
      proof (cases res)
        case (Inl x)
        then show ?thesis using p r chunks bufs gb getBatch_error[OF assms, of batchSize bufs draw0 b' x]
          by (simp add: processBatchGen_def)
      next
        case out: (Inr out)
        show ?thesis
          using p r chunks bufs gb out
          by (auto simp: processBatchGen_def getIndexBatch_def is_assertion_def split: sum.splits
                   dest!: toShared_error defaultDataGen_error)
      qed
    qed
  qed
qed

text \<open>
  Claim C9. Acquiring the process-pool strategy where \<^verbatim>\<open>platform.system()\<close> is
  Windows (in any letter case) fails at once: the acquisition returns the assertion's error,
  whose message names the missing \<^verbatim>\<open>fork()\<close> semantics of Windows, and no generator,
  hence no producer thread, comes to exist. On any other platform the acquisition raises no
  assertion error (the stages of the pipeline, which the acquisition runs once, being
  assumed to raise none themselves).
\<close>

theorem processBatchGen_platform_check:
  assumes "\<forall>aug \<in> set (augments src). \<forall>xs m. aug xs \<noteq> Inl (AssertionError m)"
  shows "(lower platform = ''windows'' \<longrightarrow>
            processBatchGen platform refused has_ctype src batchSize numProcs cpu_count draw0
              = Inl (AssertionError
                  ''Generating batches with processes requires fork() semantics not present in Windows.''))
       \<and> (lower platform \<noteq> ''windows'' \<longrightarrow>
            (\<forall>m. processBatchGen platform refused has_ctype src batchSize numProcs cpu_count draw0
                  \<noteq> Inl (AssertionError m)))"
proof -
  have "\<forall>aug \<in> set (augments src). \<forall>xs e. aug xs = Inl e \<longrightarrow> \<not> is_assertion e"
    using assms by (auto simp: is_assertion_def split: exn.splits)
  from processBatchGen_errors[OF this, of platform refused has_ctype batchSize numProcs cpu_count draw0]
  show ?thesis by (auto simp: is_assertion_def)
qed

theorem processBatchGen_platform_check_witness:
  "lower ''Windows'' = ''windows''
   \<and> processBatchGen ''Windows'' (\<lambda>m. False) (\<lambda>d. True) ex_store 2 None 4 [0, 1]
       = Inl (AssertionError
           ''Generating batches with processes requires fork() semantics not present in Windows.'')
   \<and> lower ''Linux'' \<noteq> ''windows''
   \<and> processBatchGen ''Linux'' (\<lambda>m. False) (\<lambda>d. True) ex_store 2 None 4 [0, 1]
       \<noteq> Inl (AssertionError
           ''Generating batches with processes requires fork() semantics not present in Windows.'')"
proof -
  have h: "\<forall>aug \<in> set (augments ex_store). \<forall>xs m. aug xs \<noteq> Inl (AssertionError m)"
    by (simp add: ex_store_def)
  have w: "lower ''Windows'' = ''windows''" by code_simp
  have l: "lower ''Linux'' \<noteq> ''windows''" by code_simp
  from processBatchGen_platform_check[OF h, of "''Windows''" "\<lambda>m. False" "\<lambda>d. True" 2 None 4 "[0, 1]"]
       processBatchGen_platform_check[OF h, of "''Linux''" "\<lambda>m. False" "\<lambda>d. True" 2 None 4 "[0, 1]"] w l
  show ?thesis by blast
qed

subsection \<open>The augment decorator\<close>

lemma sequence_Inr_iff:
  "sequence xs = Inr vs \<longleftrightarrow> length vs = length xs \<and> (\<forall>i < length xs. xs ! i = Inr (vs ! i))"
proof (induction xs arbitrary: vs)
  case Nil
  then show ?case by auto
next
  case (Cons x xs)
  show ?case
  proof (cases vs)
    case Nil
    then show ?thesis by (auto split: sum.splits)
  next
    case (Cons v vs')
    then show ?thesis using Cons.IH[of vs']
      by (auto split: sum.splits simp: nth_Cons split: nat.splits) 
  qed
qed

lemma sequence_total:
  "(\<forall>i < length xs. \<exists>v. xs ! i = Inr v) \<Longrightarrow> \<exists>vs. sequence xs = Inr vs"
proof (induction xs)
  case Nil
  then show ?case by simp
next
  case (Cons x xs)
  from Cons.prems have "\<exists>v. x = Inr v" by (auto dest: spec[of _ 0])
  moreover from Cons.prems have "\<forall>i < length xs. \<exists>v. xs ! i = Inr v" by (auto dest: spec[of _ "Suc i" for i])
  ultimately show ?case using Cons.IH by auto
qed

text \<open>
  Claim C5. One invocation of a stage built by the augment decorator, with the application
  probability \<open>p\<close> and the target indices that the call resolves
  (\<open>resolved_prob\<close>, \<open>resolved_applyIndices\<close>). The decision to skip is one coin flip
  for the whole invocation when \<open>p < 1\<close>, and no flip and no skip when \<open>p \<ge> 1\<close>.
  A skipped invocation returns the argument tuple unchanged. An invocation that is not
  skipped and returns has called \<open>func\<close> once, on the state the decision left, for the
  one transform \<open>op\<close>, and returns a tuple of the same length in which exactly the
  targeted positions hold \<open>op\<close> of the argument and every other position holds the
  argument; it does return whenever \<open>func\<close> returns a transform that raises on no
  argument. The targeted positions are all positions when the target indices are
  \<^verbatim>\<open>None\<close> or empty. (That the flip succeeds with probability \<open>p\<close> is the contract of
  \<^verbatim>\<open>randChoice\<close>, a parameter here.)
\<close>

theorem augment_invocation:
  fixes func :: "'a list \<Rightarrow> 'k \<Rightarrow> 's \<Rightarrow> (exn + ('a \<Rightarrow> exn + 'a)) \<times> 's"
  shows "(resolved_prob prob kwargs < 1 \<longrightarrow>
            skips prob kwargs randChoice s
              = (\<not> fst (randChoice (resolved_prob prob kwargs) s),
                 snd (randChoice (resolved_prob prob kwargs) s)))
       \<and> (1 \<le> resolved_prob prob kwargs \<longrightarrow> skips prob kwargs randChoice s = (False, s))
       \<and> (fst (skips prob kwargs randChoice s) \<longrightarrow>
            augment prob applyIndices randChoice func args kwargs s
              = (Inr args, snd (skips prob kwargs randChoice s)))
       \<and> (\<not> fst (skips prob kwargs randChoice s) \<longrightarrow>
            (\<forall>res s'. augment prob applyIndices randChoice func args kwargs s = (Inr res, s') \<longrightarrow>
               (\<exists>op. func args (kw_rest kwargs) (snd (skips prob kwargs randChoice s)) = (Inr op, s')
                  \<and> length res = length args
                  \<and> (\<forall>i < length args.
                        if int i \<in> set (target_indices (resolved_applyIndices applyIndices kwargs) (length args))
                        then op (args ! i) = Inr (res ! i)
                        else res ! i = args ! i))))
       \<and> (\<not> fst (skips prob kwargs randChoice s) \<longrightarrow>
            (\<forall>op s'. func args (kw_rest kwargs) (snd (skips prob kwargs randChoice s)) = (Inr op, s')
                \<and> (\<forall>i < length args. \<exists>y. op (args ! i) = Inr y) \<longrightarrow>
               (\<exists>res. augment prob applyIndices randChoice func args kwargs s = (Inr res, s'))))
       \<and> (resolved_applyIndices applyIndices kwargs \<in> {None, Some []} \<longrightarrow>
            (\<forall>i < length args.
               int i \<in> set (target_indices (resolved_applyIndices applyIndices kwargs) (length args))))"
proof (intro conjI impI)
  assume "resolved_prob prob kwargs < 1"
  then show "skips prob kwargs randChoice s
              = (\<not> fst (randChoice (resolved_prob prob kwargs) s),
                 snd (randChoice (resolved_prob prob kwargs) s))"
    by (simp add: skips_def split: prod.splits)
next
  assume "1 \<le> resolved_prob prob kwargs"
  then show "skips prob kwargs randChoice s = (False, s)"
    by (simp add: skips_def)
next
  assume "fst (skips prob kwargs randChoice s)"
  then show "augment prob applyIndices randChoice func args kwargs s
              = (Inr args, snd (skips prob kwargs randChoice s))"
    by (cases "skips prob kwargs randChoice s") (simp add: augment_def)
next
  let ?T = "set (target_indices (resolved_applyIndices applyIndices kwargs) (length args))"
  let ?s1 = "snd (skips prob kwargs randChoice s)"
  assume ns: "\<not> fst (skips prob kwargs randChoice s)"
  obtain s1 where sk: "skips prob kwargs randChoice s = (False, s1)"
    using ns by (cases "skips prob kwargs randChoice s") simp
  have s1: "?s1 = s1" by (simp add: sk)
  show "\<forall>res s'. augment prob applyIndices randChoice func args kwargs s = (Inr res, s') \<longrightarrow>
               (\<exists>op. func args (kw_rest kwargs) ?s1 = (Inr op, s')
                  \<and> length res = length args
                  \<and> (\<forall>i < length args.
                        if int i \<in> ?T then op (args ! i) = Inr (res ! i) else res ! i = args ! i))"
  proof (intro allI impI)
    fix res s'
    assume a: "augment prob applyIndices randChoice func args kwargs s = (Inr res, s')"
    obtain r s2 where f: "func args (kw_rest kwargs) s1 = (r, s2)"
      by (cases "func args (kw_rest kwargs) s1")
    show "\<exists>op. func args (kw_rest kwargs) ?s1 = (Inr op, s')
                  \<and> length res = length args
                  \<and> (\<forall>i < length args.
                        if int i \<in> ?T then op (args ! i) = Inr (res ! i) else res ! i = args ! i)"
    proof (cases r)
      case (Inl e)
      then show ?thesis using a sk f by (simp add: augment_def)
    next
      case (Inr op)
      then have s: "s2 = s'"
        and q: "sequence (map (\<lambda>(i, im). if int i \<in> ?T then op im else Inr im) (enumerate 0 args)) = Inr res"
        using a sk f by (simp_all add: augment_def Let_def)
      from q have len: "length res = length args"
        and nth: "\<forall>i < length args. (if int i \<in> ?T then op (args ! i) else Inr (args ! i)) = Inr (res ! i)"
        by (simp_all add: sequence_Inr_iff nth_enumerate_eq)
      have "\<forall>i < length args. if int i \<in> ?T then op (args ! i) = Inr (res ! i) else res ! i = args ! i"
        using nth by (auto split: if_splits)
      then show ?thesis using f Inr s len s1 by auto
    qed
  qed
next
  let ?T = "set (target_indices (resolved_applyIndices applyIndices kwargs) (length args))"
  let ?s1 = "snd (skips prob kwargs randChoice s)"
  assume ns: "\<not> fst (skips prob kwargs randChoice s)"
  obtain s1 where sk: "skips prob kwargs randChoice s = (False, s1)"
    using ns by (cases "skips prob kwargs randChoice s") simp
  have s1: "?s1 = s1" by (simp add: sk)
  show "\<forall>op s'. func args (kw_rest kwargs) ?s1 = (Inr op, s')
                \<and> (\<forall>i < length args. \<exists>y. op (args ! i) = Inr y) \<longrightarrow>
               (\<exists>res. augment prob applyIndices randChoice func args kwargs s = (Inr res, s'))"
  proof (intro allI impI)
    fix op s'
    assume h: "func args (kw_rest kwargs) ?s1 = (Inr op, s')
                \<and> (\<forall>i < length args. \<exists>y. op (args ! i) = Inr y)"
    let ?xs = "map (\<lambda>(i, im). if int i \<in> ?T then op im else Inr im) (enumerate 0 args)"
    have "\<forall>i < length ?xs. \<exists>v. ?xs ! i = Inr v"
      using h by (simp add: nth_enumerate_eq)
    from sequence_total[OF this] obtain res where "sequence ?xs = Inr res" by blast
    then have "augment prob applyIndices randChoice func args kwargs s = (Inr res, s')"
      using sk h s1 by (simp add: augment_def Let_def)
    then show "\<exists>res. augment prob applyIndices randChoice func args kwargs s = (Inr res, s')" by blast
  qed
next
  assume "resolved_applyIndices applyIndices kwargs \<in> {None, Some []}"
  then show "\<forall>i < length args.
               int i \<in> set (target_indices (resolved_applyIndices applyIndices kwargs) (length args))"
    by (auto simp: target_indices_def)
qed

theorem augment_invocation_witness:
  "fst (skips (1 / 2) ex_kwargs ex_randChoice 1)
   \<and> augment (1 / 2) (Some [0]) ex_randChoice ex_func [10, 20] ex_kwargs 1 = (Inr [10, 20], 2)
   \<and> \<not> fst (skips (1 / 2) ex_kwargs ex_randChoice 0)
   \<and> augment (1 / 2) (Some [0]) ex_randChoice ex_func [10, 20] ex_kwargs 0 = (Inr [11, 20], 2)"
proof -
  have k0: "skips (1 / 2) ex_kwargs ex_randChoice 0 = (False, 1)"
    by (simp add: skips_def resolved_prob_def ex_kwargs_def ex_randChoice_def)
  have k1: "skips (1 / 2) ex_kwargs ex_randChoice 1 = (True, 2)"
    by (simp add: skips_def resolved_prob_def ex_kwargs_def ex_randChoice_def)
  have r: "resolved_applyIndices (Some [0]) ex_kwargs = Some [0]"
    by (simp add: resolved_applyIndices_def ex_kwargs_def)
  have a: "augment (1 / 2) (Some [0]) ex_randChoice ex_func [10, 20] ex_kwargs 0 = (Inr [11, 20], 2)"
    unfolding augment_def k0 r by (simp add: ex_func_def target_indices_def enumerate_eq_zip)
  have f1: "fst (skips (1 / 2) ex_kwargs ex_randChoice 1)" unfolding k1 by simp
  have s1: "snd (skips (1 / 2) ex_kwargs ex_randChoice 1) = 2" unfolding k1 by simp
  note skipped = augment_invocation[of "1 / 2" ex_kwargs ex_randChoice 1 "Some [0]" ex_func "[10, 20]",
      THEN conjunct2, THEN conjunct2, THEN conjunct1, rule_format, OF f1]
  have b: "augment (1 / 2) (Some [0]) ex_randChoice ex_func [10, 20] ex_kwargs 1 = (Inr [10, 20], 2)"
    using skipped unfolding s1 .
  have f0: "\<not> fst (skips (1 / 2) ex_kwargs ex_randChoice 0)" unfolding k0 by simp
  from f1 b f0 a show ?thesis by (intro conjI)
qed

subsection \<open>Appending to the buffering store\<close>

lemma append_from_all:
  assumes "n = length cur" "k \<le> n" "n \<le> length new"
    and "\<forall>i. k \<le> i \<and> i < n \<longrightarrow> (\<exists>a. concatenate pr (cur ! i) (new ! i) = Inr a)"
  shows "\<exists>res. append_from pr cur new [k..<n] = (res, None) \<and> length res = n
           \<and> (\<forall>i < k. res ! i = cur ! i)
           \<and> (\<forall>i. k \<le> i \<and> i < n \<longrightarrow> concatenate pr (cur ! i) (new ! i) = Inr (res ! i))"
  using assms
proof (induction "n - k" arbitrary: k cur)
  case 0
  then show ?case by auto
next
  case (Suc d)
  then have kn: "k < n" by simp
  from Suc.prems(4) kn obtain a where a: "concatenate pr (cur ! k) (new ! k) = Inr a" by blast
  let ?cur = "cur[k := a]"
  have step: "append_from pr cur new [k..<n] = append_from pr ?cur new [Suc k..<n]"
    using kn Suc.prems(3) a by (simp add: upt_conv_Cons)
  have d: "d = n - Suc k" using Suc.hyps(2) by simp
  have len: "n = length ?cur" using Suc.prems(1) by simp
  have rest: "\<forall>i. Suc k \<le> i \<and> i < n \<longrightarrow> (\<exists>a. concatenate pr (?cur ! i) (new ! i) = Inr a)"
    using Suc.prems(4) by auto
  from Suc.hyps(1)[OF d len _ Suc.prems(3) rest] kn
  obtain res where res: "append_from pr ?cur new [Suc k..<n] = (res, None)" "length res = n"
    "\<forall>i < Suc k. res ! i = ?cur ! i"
    "\<forall>i. Suc k \<le> i \<and> i < n \<longrightarrow> concatenate pr (?cur ! i) (new ! i) = Inr (res ! i)"
    by auto
  have lo: "\<forall>i < k. res ! i = cur ! i" using res(3) by auto
  have atk: "res ! k = a" using res(3) kn Suc.prems(1) by auto
  have hi: "\<forall>i. k \<le> i \<and> i < n \<longrightarrow> concatenate pr (cur ! i) (new ! i) = Inr (res ! i)"
  proof (intro allI impI)
    fix i assume i: "k \<le> i \<and> i < n"
    show "concatenate pr (cur ! i) (new ! i) = Inr (res ! i)"
    proof (cases "i = k")
      case True
      then show ?thesis using a atk by simp
    next
      case False
      then have "Suc k \<le> i \<and> i < n" using i by simp
      with res(4) False show ?thesis by auto
    qed
  qed
  show ?case using step res(1,2) lo hi by simp
qed

lemma append_from_fewer:
  assumes "n = length cur" "k \<le> length new" "length new < n"
  shows "\<exists>res e. append_from pr cur new [k..<n] = (res, Some e)"
  using assms
proof (induction "length new - k" arbitrary: k cur)
  case 0
  then have "k = length new" by simp
  then show ?case using 0 by (simp add: upt_conv_Cons)
next
  case (Suc d)
  then have kn: "k < length new" "k < n" by simp_all
  show ?case
  proof (cases "concatenate pr (cur ! k) (new ! k)")
    case (Inl e)
    then show ?thesis using kn by (simp add: upt_conv_Cons)
  next
    case (Inr a)
    have d: "d = length new - Suc k" using Suc.hyps(2) by simp
    have "\<exists>res e. append_from pr (cur[k := a]) new [Suc k..<n] = (res, Some e)"
      using Suc.hyps(1)[OF d, of "cur[k := a]"] Suc.prems kn by simp
    then show ?thesis using Inr kn by (simp add: upt_conv_Cons)
  qed
qed

text \<open>
  Claim C8 does not hold as stated: \<^verbatim>\<open>appendBuffer\<close> compares no counts. A call that
  supplies two arrays to a store of one array raises nothing: the first supplied array is
  appended and the second is ignored.
\<close>

theorem appendBuffer_surplus_counterexample:
  "arrays ex_buffer \<noteq> []
   \<and> length [ex_row, ex_row] \<noteq> length (arrays ex_buffer)
   \<and> appendBuffer ex_promote ex_buffer [ex_row, ex_row]
       = (ex_buffer\<lparr>arrays := [\<lparr>shape = [3], dtype = (), memory = Joined (Given ()) (Given ()), items = [1, 2, 3]\<rparr>]\<rparr>, None)"
  by (simp add: appendBuffer_def ex_buffer_def ex_row_def concatenate_def ex_promote_def)

text \<open>
  Claim C8, amended. For a non-empty buffering store, append fails with an error when
  fewer arrays are supplied than the store has Record Arrays. When at least as many are
  supplied and each concatenation is defined, append raises nothing and replaces each
  existing array by its concatenation with the corresponding supplied array; supplied
  arrays beyond the store's count are ignored.
\<close>

theorem appendBuffer_counts:
  assumes "arrays src \<noteq> []"
  shows "(length new < length (arrays src) \<longrightarrow> (\<exists>e. snd (appendBuffer pr src new) = Some e))
       \<and> (length (arrays src) \<le> length new
            \<and> (\<forall>i < length (arrays src). \<exists>a. concatenate pr (arrays src ! i) (new ! i) = Inr a) \<longrightarrow>
          snd (appendBuffer pr src new) = None
          \<and> length (arrays (fst (appendBuffer pr src new))) = length (arrays src)
          \<and> (\<forall>i < length (arrays src).
                concatenate pr (arrays src ! i) (new ! i)
                  = Inr (arrays (fst (appendBuffer pr src new)) ! i)))"
proof (intro conjI; rule impI)
  assume "length new < length (arrays src)"
  from append_from_fewer[OF refl _ this, of 0 pr]
  obtain res e where "append_from pr (arrays src) new [0..<length (arrays src)] = (res, Some e)"
    by auto
  then show "\<exists>e. snd (appendBuffer pr src new) = Some e"
    using assms by (simp add: appendBuffer_def)
next
  assume h: "length (arrays src) \<le> length new
            \<and> (\<forall>i < length (arrays src). \<exists>a. concatenate pr (arrays src ! i) (new ! i) = Inr a)"
  then have "\<forall>i. 0 \<le> i \<and> i < length (arrays src)
               \<longrightarrow> (\<exists>a. concatenate pr (arrays src ! i) (new ! i) = Inr a)" by simp
  from append_from_all[OF refl _ _ this] h
  obtain res where res: "append_from pr (arrays src) new [0..<length (arrays src)] = (res, None)"
    "length res = length (arrays src)"
    "\<forall>i. 0 \<le> i \<and> i < length (arrays src) \<longrightarrow> concatenate pr (arrays src ! i) (new ! i) = Inr (res ! i)"
    by auto
  from assms res(2) obtain r0 rs where r: "res = r0 # rs" by (cases res) auto
  from res(3) assms r have "concatenate pr (arrays src ! 0) (new ! 0) = Inr r0" by auto
  then have sh: "shape r0 \<noteq> []"
    by (auto simp: concatenate_def split: list.splits if_splits prod.splits)
  have ab: "arrays (fst (appendBuffer pr src new)) = res \<and> snd (appendBuffer pr src new) = None"
    using assms res(1) r sh by (auto simp: appendBuffer_def split: option.splits list.splits)
  show "snd (appendBuffer pr src new) = None
          \<and> length (arrays (fst (appendBuffer pr src new))) = length (arrays src)
          \<and> (\<forall>i < length (arrays src).
                concatenate pr (arrays src ! i) (new ! i)
                  = Inr (arrays (fst (appendBuffer pr src new)) ! i))"
    using ab res(2,3) by simp
qed

theorem appendBuffer_counts_witness:
  "arrays ex_buffer \<noteq> []
   \<and> length (arrays ex_buffer) \<le> length [ex_row]
   \<and> concatenate ex_promote (arrays ex_buffer ! 0) ([ex_row] ! 0)
       = Inr \<lparr>shape = [3], dtype = (), memory = Joined (Given ()) (Given ()), items = [1, 2, 3]\<rparr>
   \<and> snd (appendBuffer ex_promote ex_buffer [ex_row]) = None
   \<and> concatenate ex_promote (arrays ex_buffer ! 0) ([ex_row] ! 0)
       = Inr (arrays (fst (appendBuffer ex_promote ex_buffer [ex_row])) ! 0)
   \<and> length ([] :: (unit, unit, nat) ndarray list) < length (arrays ex_buffer)
   \<and> (\<exists>e. snd (appendBuffer ex_promote ex_buffer []) = Some e)"
proof -
  have h1: "arrays ex_buffer \<noteq> []" by (simp add: ex_buffer_def)
  have h2: "length (arrays ex_buffer) \<le> length [ex_row]" by (simp add: ex_buffer_def)
  have h3: "concatenate ex_promote (arrays ex_buffer ! 0) ([ex_row] ! 0)
       = Inr \<lparr>shape = [3], dtype = (), memory = Joined (Given ()) (Given ()), items = [1, 2, 3]\<rparr>"
    by (simp add: ex_buffer_def ex_row_def concatenate_def ex_promote_def)
  have h4: "\<forall>i < length (arrays ex_buffer).
              \<exists>a. concatenate ex_promote (arrays ex_buffer ! i) ([ex_row] ! i) = Inr a"
    using h3 by (simp add: ex_buffer_def)
  have h5: "length ([] :: (unit, unit, nat) ndarray list) < length (arrays ex_buffer)"
    by (simp add: ex_buffer_def)
  have len: "0 < length (arrays ex_buffer)" by (simp add: ex_buffer_def)
  from appendBuffer_counts[OF h1, of "[ex_row]" ex_promote] h2 h4 len
  have a: "snd (appendBuffer ex_promote ex_buffer [ex_row]) = None
         \<and> concatenate ex_promote (arrays ex_buffer ! 0) ([ex_row] ! 0)
             = Inr (arrays (fst (appendBuffer ex_promote ex_buffer [ex_row])) ! 0)"
    by blast
  from appendBuffer_counts[OF h1, of "[]" ex_promote] h5
  have b: "\<exists>e. snd (appendBuffer ex_promote ex_buffer []) = Some e" by blast
  from h1 h2 h3 a h5 b show ?thesis by blast
qed

subsection \<open>The strategies with a producer thread on concrete stores\<close>

text \<open>
  Claim C1 fails on the code. The process-pool strategy is acquired on the store of the
  scalars 1 and 2 with an empty pipeline and batch size 1; the batch generated inline at
  acquisition is drawn at index 0. The producer's first pass draws index 1: the records of
  that Selection are \<open>[2]\<close>, and they are written to the shared input buffers, but with
  an empty pipeline no task is dispatched, nothing writes the output buffers, and the pull
  returns their old contents \<open>[1]\<close>.
\<close>

theorem process_pool_empty_pipeline_stale_batch:
  "augments ex_scalars = []
   \<and> getRandomBatch ex_scalars 1 [1]
       = Inr [\<lparr>shape = [1], dtype = (), memory = Indexed (Given ()) 1, items = [2]\<rparr>]
   \<and> (\<exists>g. processBatchGen ''Linux'' (\<lambda>m. False) (\<lambda>d. True) ex_scalars 1 None 4 [0] = Inr g
          \<and> process_pulls ex_scalars 1 g [[1]]
              = [Inr [\<lparr>shape = [1], dtype = (), memory = Allocated [1], items = [1]\<rparr>]])"
proof -
  let ?g = "\<lparr>workerIndices = [[0]], augs = [\<lparr>shape = [1], dtype = (), memory = Shared [1], items = [1::nat]\<rparr>],
             inArrays = [\<lparr>shape = [1], dtype = (), memory = Shared [1], items = [1]\<rparr>],
             batchQueue = None, isRunning = True, batchThread = Running\<rparr>"
  have a: "augments ex_scalars = []" by (simp add: ex_scalars_def)
  have b: "getRandomBatch ex_scalars 1 [1]
       = Inr [\<lparr>shape = [1], dtype = (), memory = Indexed (Given ()) 1, items = [2]\<rparr>]"
    by code_simp
  have c: "processBatchGen ''Linux'' (\<lambda>m. False) (\<lambda>d. True) ex_scalars 1 None 4 [0] = Inr ?g" by code_simp
  have d: "process_pulls ex_scalars 1 ?g [[1]]
              = [Inr [\<lparr>shape = [1], dtype = (), memory = Allocated [1], items = [1]\<rparr>]]"
    by code_simp
  from a b c d show ?thesis by blast
qed

text \<open>
  Claim C2 fails on the code. On the store whose stage raises on the record 2, with batch
  size 1 and the producer's first pass drawing index 1, the worker's call of
  \<^verbatim>\<open>applyAugments\<close> raises. In the thread-pool strategy nothing catches it: the pull
  receives a batch (the buffers as the generation at acquisition left them) and no failure
  value, whereas the pull of the process-pool strategy raises the worker's exception.
\<close>

theorem thread_pool_worker_exception_lost:
  "applyAugments ex_rejecting [\<lparr>shape = [1], dtype = (), memory = Indexed (Given ()) 1, items = [2]\<rparr>]
       [\<lparr>shape = [1], dtype = (), memory = Allocated [1], items = [1]\<rparr>] (Some [0])
     = ([\<lparr>shape = [1], dtype = (), memory = Allocated [1], items = [1]\<rparr>], Some (StageError ''bad record''))
   \<and> (\<exists>g. threadBatchGen ex_rejecting 1 None 4 [0] = Inr g
          \<and> thread_pulls ex_rejecting 1 g [[1]] 
              = [Batch [\<lparr>shape = [1], dtype = (), memory = Allocated [1], items = [1]\<rparr>]])
   \<and> (\<exists>g. processBatchGen ''Linux'' (\<lambda>m. False) (\<lambda>d. True) ex_rejecting 1 None 4 [0] = Inr g
          \<and> process_pulls ex_rejecting 1 g [[1]] = [Inl (StageError ''bad record'')])"
proof -
  let ?t = "\<lparr>workerIndices = [[0]], augs = [\<lparr>shape = [1], dtype = (), memory = Allocated [1], items = [1::nat]\<rparr>],
             inArrays = [], batchQueue = None, isRunning = True, batchThread = Running\<rparr>"
  let ?g = "\<lparr>workerIndices = [[0]], augs = [\<lparr>shape = [1], dtype = (), memory = Shared [1], items = [1::nat]\<rparr>],
             inArrays = [\<lparr>shape = [1], dtype = (), memory = Shared [1], items = [1]\<rparr>],
             batchQueue = None, isRunning = True, batchThread = Running\<rparr>"
  have a: "applyAugments ex_rejecting [\<lparr>shape = [1], dtype = (), memory = Indexed (Given ()) 1, items = [2]\<rparr>]
       [\<lparr>shape = [1], dtype = (), memory = Allocated [1], items = [1]\<rparr>] (Some [0])
     = ([\<lparr>shape = [1], dtype = (), memory = Allocated [1], items = [1]\<rparr>], Some (StageError ''bad record''))"
    by code_simp
  have b: "threadBatchGen ex_rejecting 1 None 4 [0] = Inr ?t" by code_simp
  have c: "thread_pulls ex_rejecting 1 ?t [[1]] 
              = [Batch [\<lparr>shape = [1], dtype = (), memory = Allocated [1], items = [1]\<rparr>]]"
    by code_simp
  have d: "processBatchGen ''Linux'' (\<lambda>m. False) (\<lambda>d. True) ex_rejecting 1 None 4 [0] = Inr ?g" by code_simp
  have e: "process_pulls ex_rejecting 1 ?g [[1]] = [Inl (StageError ''bad record'')]" by code_simp
  from a b c d e show ?thesis by blast
qed

text \<open>
  The producer thread of the process-pool strategy that has returned takes no further
  step, so a caller waiting on the empty queue is never served.
\<close>

lemma process_step_exited:
  "batchThread g = Finished \<Longrightarrow> process_step src bs g d = g"
  by (simp add: process_step_def producer_put_def)

lemma await_item_exited:
  "batchThread g = Finished \<Longrightarrow> batchQueue g = None \<Longrightarrow> \<not> await_item (process_step src bs) g ds"
  by (induction ds) (simp_all add: process_step_exited)

text \<open>
  Claim C3 fails on the code. The process-pool strategy is acquired on the store whose
  stage raises on the record 2; the producer's first pass raises, puts the exception on the
  queue and returns; the pull takes the exception from the queue and raises it. The
  release that follows finds the queue empty: its \<^verbatim>\<open>batchQueue.get(True)\<close> does not
  return with \<^verbatim>\<open>queue.Empty\<close> but waits, and whatever steps the producer is given, no
  item arrives.
\<close>

theorem release_waits_for_ever:
  "\<exists>g g2 g3. processBatchGen ''Linux'' (\<lambda>m. False) (\<lambda>d. True) ex_rejecting 1 None 4 [0] = Inr g
      \<and> process_pull (process_step ex_rejecting 1 (process_step ex_rejecting 1 g [1]) [1])
          = Some (Inl (StageError ''bad record''), g2)
      \<and> batchQueue g2 = None
      \<and> release g2 = (Waiting, g3)
      \<and> (\<forall>ds. \<not> await_item (process_step ex_rejecting 1) g3 ds)"
proof -
  let ?g = "\<lparr>workerIndices = [[0]], augs = [\<lparr>shape = [1], dtype = (), memory = Shared [1], items = [1::nat]\<rparr>],
             inArrays = [\<lparr>shape = [1], dtype = (), memory = Shared [1], items = [1]\<rparr>],
             batchQueue = None, isRunning = True, batchThread = Running\<rparr>"
  let ?g2 = "\<lparr>workerIndices = [[0]], augs = [\<lparr>shape = [1], dtype = (), memory = Shared [1], items = [1::nat]\<rparr>],
             inArrays = [\<lparr>shape = [1], dtype = (), memory = Shared [1], items = [2]\<rparr>],
             batchQueue = None, isRunning = True, batchThread = Finished\<rparr>"
  let ?g3 = "?g2\<lparr>isRunning := False\<rparr>"
  have a: "processBatchGen ''Linux'' (\<lambda>m. False) (\<lambda>d. True) ex_rejecting 1 None 4 [0] = Inr ?g" by code_simp
  have b: "process_pull (process_step ex_rejecting 1 (process_step ex_rejecting 1 ?g [1]) [1])
          = Some (Inl (StageError ''bad record''), ?g2)" by code_simp
  have c: "batchQueue ?g2 = None" by simp
  have d: "release ?g2 = (Waiting, ?g3)" by (simp add: release_def queue_get_def)
  have e: "\<forall>ds. \<not> await_item (process_step ex_rejecting 1) ?g3 ds"
    by (intro allI await_item_exited) simp_all
  from a b c d e show ?thesis by blast
qed

subsection \<open>Shapes of the batches with an empty pipeline\<close>











































end
